theory Spec2Isabelle
  imports Complex_Main "HOL-Library.Multiset"
begin

section \<open>The host language: strings, numbers and comparison\<close>

text \<open>
  \<^verbatim>\<open>sort.js\<close> is two event handlers over the document tree. Everything they compute
  goes through a handful of built-ins of the host language: \<^verbatim>\<open>trim\<close>,
  \<^verbatim>\<open>toLowerCase\<close>, \<^verbatim>\<open>isNaN\<close>, \<^verbatim>\<open>parseFloat\<close>, the relational
  operators and \<^verbatim>\<open>Array.prototype.sort\<close>. This section models those built-ins as
  ECMAScript defines them; the next sections translate the handlers.

  A string is a sequence of UTF-16 code units, written here as integers.
\<close>

type_synonym jsstring = "int list"

definition units :: "string \<Rightarrow> jsstring" where
  "units s = map of_char s"

text \<open>
  White space and line terminators, the characters \<^verbatim>\<open>trim\<close> removes and
  \<^verbatim>\<open>Number\<close> skips: TAB, LF, VT, FF, CR, SP, NBSP, U+1680, U+2000 to U+200A,
  U+2028, U+2029, U+202F, U+205F, U+3000 and U+FEFF.
\<close>

definition isWhiteSpace :: "int \<Rightarrow> bool" where
  "isWhiteSpace c \<longleftrightarrow>
     (9 \<le> c \<and> c \<le> 13) \<or> c = 32 \<or> c = 160 \<or> c = 5760 \<or> (8192 \<le> c \<and> c \<le> 8202) \<or>
     c = 8232 \<or> c = 8233 \<or> c = 8239 \<or> c = 8287 \<or> c = 12288 \<or> c = 65279"

definition trim :: "jsstring \<Rightarrow> jsstring" where
  "trim s = rev (dropWhile isWhiteSpace (rev (dropWhile isWhiteSpace s)))"

subsection \<open>Lower-casing\<close>

text \<open>
  \<^verbatim>\<open>toLowerCase\<close> reads the string as code points, a lead surrogate followed by a
  trail surrogate being one code point, maps each code point as the Unicode Character
  Database says, and writes the result in code units again.
\<close>

definition isLeadSurrogate :: "int \<Rightarrow> bool" where
  "isLeadSurrogate u \<longleftrightarrow> 55296 \<le> u \<and> u \<le> 56319"

definition isTrailSurrogate :: "int \<Rightarrow> bool" where
  "isTrailSurrogate u \<longleftrightarrow> 56320 \<le> u \<and> u \<le> 57343"

fun codePoints :: "jsstring \<Rightarrow> int list" where
  "codePoints [] = []"
| "codePoints [u] = [u]"
| "codePoints (u # v # us) =
     (if isLeadSurrogate u \<and> isTrailSurrogate v
      then (65536 + (u - 55296) * 1024 + (v - 56320)) # codePoints us
      else u # codePoints (v # us))"

definition codeUnits :: "int \<Rightarrow> jsstring" where
  "codeUnits cp =
     (if cp < 65536 then [cp]
      else [55296 + (cp - 65536) div 1024, 56320 + (cp - 65536) mod 1024])"

text \<open>
  The lower case mappings of single code points to single code points, from Unicode 15.0:
  \<open>(lo, hi, step, offset)\<close> maps the code points \<open>lo\<close>, \<open>lo + step\<close>, ... up to
  \<open>hi\<close> to themselves plus \<open>offset\<close>. The entries are in ascending order and do not
  overlap; a code point with no entry is its own lower case.
\<close>

definition lowerRules :: "(int \<times> int \<times> int \<times> int) list" where
  "lowerRules =
    [
     (65, 90, 1, 32), (192, 214, 1, 32), (216, 222, 1, 32), (256, 302, 2, 1),
     (306, 310, 2, 1), (313, 327, 2, 1), (330, 374, 2, 1), (376, 376, 1, -121),
     (377, 381, 2, 1), (385, 385, 1, 210), (386, 388, 2, 1), (390, 390, 1, 206),
     (391, 391, 1, 1), (393, 394, 1, 205), (395, 395, 1, 1), (398, 398, 1, 79),
     (399, 399, 1, 202), (400, 400, 1, 203), (401, 401, 1, 1), (403, 403, 1, 205),
     (404, 404, 1, 207), (406, 406, 1, 211), (407, 407, 1, 209), (408, 408, 1, 1),
     (412, 412, 1, 211), (413, 413, 1, 213), (415, 415, 1, 214), (416, 420, 2, 1),
     (422, 422, 1, 218), (423, 423, 1, 1), (425, 425, 1, 218), (428, 428, 1, 1),
     (430, 430, 1, 218), (431, 431, 1, 1), (433, 434, 1, 217), (435, 437, 2, 1),
     (439, 439, 1, 219), (440, 440, 1, 1), (444, 444, 1, 1), (452, 452, 1, 2),
     (453, 453, 1, 1), (455, 455, 1, 2), (456, 456, 1, 1), (458, 458, 1, 2),
     (459, 475, 2, 1), (478, 494, 2, 1), (497, 497, 1, 2), (498, 500, 2, 1),
     (502, 502, 1, -97), (503, 503, 1, -56), (504, 542, 2, 1), (544, 544, 1, -130),
     (546, 562, 2, 1), (570, 570, 1, 10795), (571, 571, 1, 1), (573, 573, 1, -163),
     (574, 574, 1, 10792), (577, 577, 1, 1), (579, 579, 1, -195), (580, 580, 1, 69),
     (581, 581, 1, 71), (582, 590, 2, 1), (880, 882, 2, 1), (886, 886, 1, 1),
     (895, 895, 1, 116), (902, 902, 1, 38), (904, 906, 1, 37), (908, 908, 1, 64),
     (910, 911, 1, 63), (913, 929, 1, 32), (931, 939, 1, 32), (975, 975, 1, 8),
     (984, 1006, 2, 1), (1012, 1012, 1, -60), (1015, 1015, 1, 1), (1017, 1017, 1, -7),
     (1018, 1018, 1, 1), (1021, 1023, 1, -130), (1024, 1039, 1, 80), (1040, 1071, 1, 32),
     (1120, 1152, 2, 1), (1162, 1214, 2, 1), (1216, 1216, 1, 15), (1217, 1229, 2, 1),
     (1232, 1326, 2, 1), (1329, 1366, 1, 48), (4256, 4293, 1, 7264), (4295, 4295, 1, 7264),
     (4301, 4301, 1, 7264), (5024, 5103, 1, 38864), (5104, 5109, 1, 8), (7312, 7354, 1, -3008),
     (7357, 7359, 1, -3008), (7680, 7828, 2, 1), (7838, 7838, 1, -7615), (7840, 7934, 2, 1),
     (7944, 7951, 1, -8), (7960, 7965, 1, -8), (7976, 7983, 1, -8), (7992, 7999, 1, -8),
     (8008, 8013, 1, -8), (8025, 8031, 2, -8), (8040, 8047, 1, -8), (8072, 8079, 1, -8),
     (8088, 8095, 1, -8), (8104, 8111, 1, -8), (8120, 8121, 1, -8), (8122, 8123, 1, -74),
     (8124, 8124, 1, -9), (8136, 8139, 1, -86), (8140, 8140, 1, -9), (8152, 8153, 1, -8),
     (8154, 8155, 1, -100), (8168, 8169, 1, -8), (8170, 8171, 1, -112), (8172, 8172, 1, -7),
     (8184, 8185, 1, -128), (8186, 8187, 1, -126), (8188, 8188, 1, -9), (8486, 8486, 1, -7517),
     (8490, 8490, 1, -8383), (8491, 8491, 1, -8262), (8498, 8498, 1, 28), (8544, 8559, 1, 16),
     (8579, 8579, 1, 1), (9398, 9423, 1, 26), (11264, 11311, 1, 48), (11360, 11360, 1, 1),
     (11362, 11362, 1, -10743), (11363, 11363, 1, -3814), (11364, 11364, 1, -10727), (11367, 11371, 2, 1),
     (11373, 11373, 1, -10780), (11374, 11374, 1, -10749), (11375, 11375, 1, -10783), (11376, 11376, 1, -10782),
     (11378, 11378, 1, 1), (11381, 11381, 1, 1), (11390, 11391, 1, -10815), (11392, 11490, 2, 1),
     (11499, 11501, 2, 1), (11506, 11506, 1, 1), (42560, 42604, 2, 1), (42624, 42650, 2, 1),
     (42786, 42798, 2, 1), (42802, 42862, 2, 1), (42873, 42875, 2, 1), (42877, 42877, 1, -35332),
     (42878, 42886, 2, 1), (42891, 42891, 1, 1), (42893, 42893, 1, -42280), (42896, 42898, 2, 1),
     (42902, 42920, 2, 1), (42922, 42922, 1, -42308), (42923, 42923, 1, -42319), (42924, 42924, 1, -42315),
     (42925, 42925, 1, -42305), (42926, 42926, 1, -42308), (42928, 42928, 1, -42258), (42929, 42929, 1, -42282),
     (42930, 42930, 1, -42261), (42931, 42931, 1, 928), (42932, 42946, 2, 1), (42948, 42948, 1, -48),
     (42949, 42949, 1, -42307), (42950, 42950, 1, -35384), (42951, 42953, 2, 1), (42960, 42960, 1, 1),
     (42966, 42968, 2, 1), (42997, 42997, 1, 1), (65313, 65338, 1, 32), (66560, 66599, 1, 40),
     (66736, 66771, 1, 40), (66928, 66938, 1, 39), (66940, 66954, 1, 39), (66956, 66962, 1, 39),
     (66964, 66965, 1, 39), (68736, 68786, 1, 64), (71840, 71871, 1, 32), (93760, 93791, 1, 32),
     (125184, 125217, 1, 34)
    ]"

fun lowerRule :: "(int \<times> int \<times> int \<times> int) list \<Rightarrow> int \<Rightarrow> int" where
  "lowerRule [] c = c"
| "lowerRule ((lo, hi, step, offset) # rules) c =
     (if c < lo then c
      else if c \<le> hi \<and> (c - lo) mod step = 0 then c + offset
      else lowerRule rules c)"

text \<open>
  The code points with the properties \<^verbatim>\<open>Cased\<close> and \<^verbatim>\<open>Case_Ignorable\<close>, as ranges
  \<open>(lo, hi)\<close>, from Unicode 15.0.
\<close>

definition inRanges :: "(int \<times> int) list \<Rightarrow> int \<Rightarrow> bool" where
  "inRanges ranges c = list_ex (\<lambda>(lo, hi). lo \<le> c \<and> c \<le> hi) ranges"

definition casedRanges :: "(int \<times> int) list" where
  "casedRanges =
    [
     (65, 90), (97, 122), (170, 170), (181, 181), (186, 186), (192, 214),
     (216, 246), (248, 442), (444, 447), (452, 659), (661, 696), (704, 705),
     (736, 740), (837, 837), (880, 883), (886, 887), (890, 893), (895, 895),
     (902, 902), (904, 906), (908, 908), (910, 929), (931, 1013), (1015, 1153),
     (1162, 1327), (1329, 1366), (1376, 1416), (4256, 4293), (4295, 4295), (4301, 4301),
     (4304, 4346), (4348, 4351), (5024, 5109), (5112, 5117), (7296, 7304), (7312, 7354),
     (7357, 7359), (7424, 7615), (7680, 7957), (7960, 7965), (7968, 8005), (8008, 8013),
     (8016, 8023), (8025, 8025), (8027, 8027), (8029, 8029), (8031, 8061), (8064, 8116),
     (8118, 8124), (8126, 8126), (8130, 8132), (8134, 8140), (8144, 8147), (8150, 8155),
     (8160, 8172), (8178, 8180), (8182, 8188), (8305, 8305), (8319, 8319), (8336, 8348),
     (8450, 8450), (8455, 8455), (8458, 8467), (8469, 8469), (8473, 8477), (8484, 8484),
     (8486, 8486), (8488, 8488), (8490, 8493), (8495, 8500), (8505, 8505), (8508, 8511),
     (8517, 8521), (8526, 8526), (8544, 8575), (8579, 8580), (9398, 9449), (11264, 11492),
     (11499, 11502), (11506, 11507), (11520, 11557), (11559, 11559), (11565, 11565), (42560, 42605),
     (42624, 42653), (42786, 42887), (42891, 42894), (42896, 42954), (42960, 42961), (42963, 42963),
     (42965, 42969), (42994, 42998), (43000, 43002), (43824, 43866), (43868, 43881), (43888, 43967),
     (64256, 64262), (64275, 64279), (65313, 65338), (65345, 65370), (66560, 66639), (66736, 66771),
     (66776, 66811), (66928, 66938), (66940, 66954), (66956, 66962), (66964, 66965), (66967, 66977),
     (66979, 66993), (66995, 67001), (67003, 67004), (67456, 67456), (67459, 67461), (67463, 67504),
     (67506, 67514), (68736, 68786), (68800, 68850), (71840, 71903), (93760, 93823), (119808, 119892),
     (119894, 119964), (119966, 119967), (119970, 119970), (119973, 119974), (119977, 119980), (119982, 119993),
     (119995, 119995), (119997, 120003), (120005, 120069), (120071, 120074), (120077, 120084), (120086, 120092),
     (120094, 120121), (120123, 120126), (120128, 120132), (120134, 120134), (120138, 120144), (120146, 120485),
     (120488, 120512), (120514, 120538), (120540, 120570), (120572, 120596), (120598, 120628), (120630, 120654),
     (120656, 120686), (120688, 120712), (120714, 120744), (120746, 120770), (120772, 120779), (122624, 122633),
     (122635, 122654), (122661, 122666), (122928, 122989), (125184, 125251), (127280, 127305), (127312, 127337),
     (127344, 127369)
    ]"

definition caseIgnorableRanges :: "(int \<times> int) list" where
  "caseIgnorableRanges =
    [
     (39, 39), (46, 46), (58, 58), (94, 94), (96, 96), (168, 168),
     (173, 173), (175, 175), (180, 180), (183, 184), (688, 879), (884, 885),
     (890, 890), (900, 901), (903, 903), (1155, 1161), (1369, 1369), (1375, 1375),
     (1425, 1469), (1471, 1471), (1473, 1474), (1476, 1477), (1479, 1479), (1524, 1524),
     (1536, 1541), (1552, 1562), (1564, 1564), (1600, 1600), (1611, 1631), (1648, 1648),
     (1750, 1757), (1759, 1768), (1770, 1773), (1807, 1807), (1809, 1809), (1840, 1866),
     (1958, 1968), (2027, 2037), (2042, 2042), (2045, 2045), (2070, 2093), (2137, 2139),
     (2184, 2184), (2192, 2193), (2200, 2207), (2249, 2306), (2362, 2362), (2364, 2364),
     (2369, 2376), (2381, 2381), (2385, 2391), (2402, 2403), (2417, 2417), (2433, 2433),
     (2492, 2492), (2497, 2500), (2509, 2509), (2530, 2531), (2558, 2558), (2561, 2562),
     (2620, 2620), (2625, 2626), (2631, 2632), (2635, 2637), (2641, 2641), (2672, 2673),
     (2677, 2677), (2689, 2690), (2748, 2748), (2753, 2757), (2759, 2760), (2765, 2765),
     (2786, 2787), (2810, 2815), (2817, 2817), (2876, 2876), (2879, 2879), (2881, 2884),
     (2893, 2893), (2901, 2902), (2914, 2915), (2946, 2946), (3008, 3008), (3021, 3021),
     (3072, 3072), (3076, 3076), (3132, 3132), (3134, 3136), (3142, 3144), (3146, 3149),
     (3157, 3158), (3170, 3171), (3201, 3201), (3260, 3260), (3263, 3263), (3270, 3270),
     (3276, 3277), (3298, 3299), (3328, 3329), (3387, 3388), (3393, 3396), (3405, 3405),
     (3426, 3427), (3457, 3457), (3530, 3530), (3538, 3540), (3542, 3542), (3633, 3633),
     (3636, 3642), (3654, 3662), (3761, 3761), (3764, 3772), (3782, 3782), (3784, 3790),
     (3864, 3865), (3893, 3893), (3895, 3895), (3897, 3897), (3953, 3966), (3968, 3972),
     (3974, 3975), (3981, 3991), (3993, 4028), (4038, 4038), (4141, 4144), (4146, 4151),
     (4153, 4154), (4157, 4158), (4184, 4185), (4190, 4192), (4209, 4212), (4226, 4226),
     (4229, 4230), (4237, 4237), (4253, 4253), (4348, 4348), (4957, 4959), (5906, 5908),
     (5938, 5939), (5970, 5971), (6002, 6003), (6068, 6069), (6071, 6077), (6086, 6086),
     (6089, 6099), (6103, 6103), (6109, 6109), (6155, 6159), (6211, 6211), (6277, 6278),
     (6313, 6313), (6432, 6434), (6439, 6440), (6450, 6450), (6457, 6459), (6679, 6680),
     (6683, 6683), (6742, 6742), (6744, 6750), (6752, 6752), (6754, 6754), (6757, 6764),
     (6771, 6780), (6783, 6783), (6823, 6823), (6832, 6862), (6912, 6915), (6964, 6964),
     (6966, 6970), (6972, 6972), (6978, 6978), (7019, 7027), (7040, 7041), (7074, 7077),
     (7080, 7081), (7083, 7085), (7142, 7142), (7144, 7145), (7149, 7149), (7151, 7153),
     (7212, 7219), (7222, 7223), (7288, 7293), (7376, 7378), (7380, 7392), (7394, 7400),
     (7405, 7405), (7412, 7412), (7416, 7417), (7468, 7530), (7544, 7544), (7579, 7679),
     (8125, 8125), (8127, 8129), (8141, 8143), (8157, 8159), (8173, 8175), (8189, 8190),
     (8203, 8207), (8216, 8217), (8228, 8228), (8231, 8231), (8234, 8238), (8288, 8292),
     (8294, 8303), (8305, 8305), (8319, 8319), (8336, 8348), (8400, 8432), (11388, 11389),
     (11503, 11505), (11631, 11631), (11647, 11647), (11744, 11775), (11823, 11823), (12293, 12293),
     (12330, 12333), (12337, 12341), (12347, 12347), (12441, 12446), (12540, 12542), (40981, 40981),
     (42232, 42237), (42508, 42508), (42607, 42610), (42612, 42621), (42623, 42623), (42652, 42655),
     (42736, 42737), (42752, 42785), (42864, 42864), (42888, 42890), (42994, 42996), (43000, 43001),
     (43010, 43010), (43014, 43014), (43019, 43019), (43045, 43046), (43052, 43052), (43204, 43205),
     (43232, 43249), (43263, 43263), (43302, 43309), (43335, 43345), (43392, 43394), (43443, 43443),
     (43446, 43449), (43452, 43453), (43471, 43471), (43493, 43494), (43561, 43566), (43569, 43570),
     (43573, 43574), (43587, 43587), (43596, 43596), (43632, 43632), (43644, 43644), (43696, 43696),
     (43698, 43700), (43703, 43704), (43710, 43711), (43713, 43713), (43741, 43741), (43756, 43757),
     (43763, 43764), (43766, 43766), (43867, 43871), (43881, 43883), (44005, 44005), (44008, 44008),
     (44013, 44013), (64286, 64286), (64434, 64450), (65024, 65039), (65043, 65043), (65056, 65071),
     (65106, 65106), (65109, 65109), (65279, 65279), (65287, 65287), (65294, 65294), (65306, 65306),
     (65342, 65342), (65344, 65344), (65392, 65392), (65438, 65439), (65507, 65507), (65529, 65531),
     (66045, 66045), (66272, 66272), (66422, 66426), (67456, 67461), (67463, 67504), (67506, 67514),
     (68097, 68099), (68101, 68102), (68108, 68111), (68152, 68154), (68159, 68159), (68325, 68326),
     (68900, 68903), (69291, 69292), (69373, 69375), (69446, 69456), (69506, 69509), (69633, 69633),
     (69688, 69702), (69744, 69744), (69747, 69748), (69759, 69761), (69811, 69814), (69817, 69818),
     (69821, 69821), (69826, 69826), (69837, 69837), (69888, 69890), (69927, 69931), (69933, 69940),
     (70003, 70003), (70016, 70017), (70070, 70078), (70089, 70092), (70095, 70095), (70191, 70193),
     (70196, 70196), (70198, 70199), (70206, 70206), (70209, 70209), (70367, 70367), (70371, 70378),
     (70400, 70401), (70459, 70460), (70464, 70464), (70502, 70508), (70512, 70516), (70712, 70719),
     (70722, 70724), (70726, 70726), (70750, 70750), (70835, 70840), (70842, 70842), (70847, 70848),
     (70850, 70851), (71090, 71093), (71100, 71101), (71103, 71104), (71132, 71133), (71219, 71226),
     (71229, 71229), (71231, 71232), (71339, 71339), (71341, 71341), (71344, 71349), (71351, 71351),
     (71453, 71455), (71458, 71461), (71463, 71467), (71727, 71735), (71737, 71738), (71995, 71996),
     (71998, 71998), (72003, 72003), (72148, 72151), (72154, 72155), (72160, 72160), (72193, 72202),
     (72243, 72248), (72251, 72254), (72263, 72263), (72273, 72278), (72281, 72283), (72330, 72342),
     (72344, 72345), (72752, 72758), (72760, 72765), (72767, 72767), (72850, 72871), (72874, 72880),
     (72882, 72883), (72885, 72886), (73009, 73014), (73018, 73018), (73020, 73021), (73023, 73029),
     (73031, 73031), (73104, 73105), (73109, 73109), (73111, 73111), (73459, 73460), (73472, 73473),
     (73526, 73530), (73536, 73536), (73538, 73538), (78896, 78912), (78919, 78933), (92912, 92916),
     (92976, 92982), (92992, 92995), (94031, 94031), (94095, 94111), (94176, 94177), (94179, 94180),
     (110576, 110579), (110581, 110587), (110589, 110590), (113821, 113822), (113824, 113827), (118528, 118573),
     (118576, 118598), (119143, 119145), (119155, 119170), (119173, 119179), (119210, 119213), (119362, 119364),
     (121344, 121398), (121403, 121452), (121461, 121461), (121476, 121476), (121499, 121503), (121505, 121519),
     (122880, 122886), (122888, 122904), (122907, 122913), (122915, 122916), (122918, 122922), (122928, 122989),
     (123023, 123023), (123184, 123197), (123566, 123566), (123628, 123631), (124139, 124143), (125136, 125142),
     (125252, 125259), (127995, 127999), (917505, 917505), (917536, 917631), (917760, 917999)
    ]"

definition isCased :: "int \<Rightarrow> bool" where
  "isCased c = inRanges casedRanges c"

definition isCaseIgnorable :: "int \<Rightarrow> bool" where
  "isCaseIgnorable c = inRanges caseIgnorableRanges c"

text \<open>
  The one mapping that depends on the context: a capital sigma becomes the final small sigma
  when a cased letter comes before it and none after it, case-ignorable code points in
  between being skipped. \<open>before\<close> holds the code points before the sigma, the nearest
  first, \<open>after\<close> those after it.
\<close>

definition nextIsCased :: "int list \<Rightarrow> bool" where
  "nextIsCased cps =
     (case dropWhile isCaseIgnorable cps of [] \<Rightarrow> False | c # _ \<Rightarrow> isCased c)"

definition isFinalSigma :: "int list \<Rightarrow> int list \<Rightarrow> bool" where
  "isFinalSigma before after \<longleftrightarrow> nextIsCased before \<and> \<not> nextIsCased after"

text \<open>
  The lower case of one code point in its context. The capital I with dot above, U+0130, is
  the one code point whose lower case is two code points.
\<close>

definition lowerCodePoint :: "int list \<Rightarrow> int \<Rightarrow> int list \<Rightarrow> int list" where
  "lowerCodePoint before c after =
     (if c = 931 then [if isFinalSigma before after then 962 else 963]
      else if c = 304 then [105, 775]
      else [lowerRule lowerRules c])"

fun lowerCodePoints :: "int list \<Rightarrow> int list \<Rightarrow> int list" where
  "lowerCodePoints before [] = []"
| "lowerCodePoints before (c # after) =
     lowerCodePoint before c after @ lowerCodePoints (c # before) after"

definition toLowerCase :: "jsstring \<Rightarrow> jsstring" where
  "toLowerCase s = concat (map codeUnits (lowerCodePoints [] (codePoints s)))"

text \<open>
  A Number is NaN, an infinity or a finite double. A finite double is carried by the
  rational it denotes; the sign of zero, which no comparison can see, is not kept.
\<close>

datatype number = NaN | NegInfinity | Finite rat | Infinity

fun negate :: "number \<Rightarrow> number" where
  "negate NaN = NaN"
| "negate NegInfinity = Infinity"
| "negate (Finite q) = Finite (- q)"
| "negate Infinity = NegInfinity"

text \<open>
  Rounding of a mathematical value to the nearest double, ties to even: 53 significant
  bits, binary exponents from -1022 (below it the spacing stays $2^{-1074}$) to 1023; a
  value that rounds to an exponent beyond 1023 becomes an infinity.
\<close>

function bitlen :: "int \<Rightarrow> int" where
  "bitlen n = (if n \<le> 0 then 0 else 1 + bitlen (n div 2))"
  by pat_completeness auto
termination
  by (relation "measure nat") auto

definition pow2 :: "int \<Rightarrow> rat" where
  "pow2 k = (if 0 \<le> k then 2 ^ nat k else 1 / 2 ^ nat (- k))"

definition floorLog2 :: "rat \<Rightarrow> int" where
  "floorLog2 a =
     (let (p, d) = quotient_of a;
          k = bitlen p - bitlen d
      in if pow2 k \<le> a then k else k - 1)"

definition roundHalfEven :: "rat \<Rightarrow> int" where
  "roundHalfEven x =
     (let f = \<lfloor>x\<rfloor>; d = x - of_int f
      in if d < 1 / 2 then f else if 1 / 2 < d then f + 1 else if even f then f else f + 1)"

definition toDouble :: "rat \<Rightarrow> number" where
  "toDouble x =
     (if x = 0 then Finite 0
      else
        let a = \<bar>x\<bar>;
            e = max (floorLog2 a) (- 1022);
            u = pow2 (e - 52);
            v = of_int (roundHalfEven (a / u)) * u
        in if 1023 < floorLog2 v then (if 0 < x then Infinity else NegInfinity)
           else Finite (if 0 < x then v else - v))"

subsection \<open>Numeric literals\<close>

definition isDecimalDigit :: "int \<Rightarrow> bool" where
  "isDecimalDigit c \<longleftrightarrow> 48 \<le> c \<and> c \<le> 57"

definition digitValue :: "int \<Rightarrow> int" where
  "digitValue c =
     (if 48 \<le> c \<and> c \<le> 57 then c - 48
      else if 97 \<le> c \<and> c \<le> 102 then c - 87
      else c - 55)"

definition digitsValue :: "int \<Rightarrow> jsstring \<Rightarrow> int" where
  "digitsValue base ds = foldl (\<lambda>acc c. base * acc + digitValue c) 0 ds"

definition pow10 :: "int \<Rightarrow> rat" where
  "pow10 k = (if 0 \<le> k then 10 ^ nat k else 1 / 10 ^ nat (- k))"

text \<open>
  The digits of a decimal literal: an integer part, an optional dot, a fraction part, with
  a digit on at least one side of the dot. The result is the two digit strings and what
  follows them.
\<close>

definition mantissa :: "jsstring \<Rightarrow> (jsstring \<times> jsstring \<times> jsstring) option" where
  "mantissa s =
     (let ip = takeWhile isDecimalDigit s; r = dropWhile isDecimalDigit s
      in case r of
           [] \<Rightarrow> if ip = [] then None else Some (ip, [], [])
         | c # r' \<Rightarrow>
             if c = 46 then
               (let fp = takeWhile isDecimalDigit r'; r2 = dropWhile isDecimalDigit r'
                in if ip = [] \<and> fp = [] then None else Some (ip, fp, r2))
             else if ip = [] then None
             else Some (ip, [], r))"

text \<open>
  The exponent part: \<^verbatim>\<open>e\<close> or \<^verbatim>\<open>E\<close>, an optional sign, at least one digit.
  Without a digit there is no exponent part and nothing is consumed.
\<close>

fun exponentSign :: "jsstring \<Rightarrow> bool \<times> jsstring" where
  "exponentSign [] = (False, [])"
| "exponentSign (d # r) =
     (if d = 45 then (True, r) else if d = 43 then (False, r) else (False, d # r))"

definition exponentPart :: "jsstring \<Rightarrow> int \<times> jsstring" where
  "exponentPart s =
     (case s of
        [] \<Rightarrow> (0, s)
      | c # r \<Rightarrow>
          if c = 101 \<or> c = 69 then
            (let (neg, r1) = exponentSign r;
                 ds = takeWhile isDecimalDigit r1
             in if ds = [] then (0, s)
                else (if neg then - digitsValue 10 ds else digitsValue 10 ds,
                      dropWhile isDecimalDigit r1))
          else (0, s))"

text \<open>
  The longest prefix that is a \<^verbatim>\<open>StrUnsignedDecimalLiteral\<close>, with its value and the
  rest of the string.
\<close>

definition strUnsignedDecimalLiteral :: "jsstring \<Rightarrow> (number \<times> jsstring) option" where
  "strUnsignedDecimalLiteral s =
     (if take 8 s = [73, 110, 102, 105, 110, 105, 116, 121] then Some (Infinity, drop 8 s)
      else
        case mantissa s of
          None \<Rightarrow> None
        | Some (ip, fp, r) \<Rightarrow>
            (let (e, r') = exponentPart r
             in Some (toDouble (of_int (digitsValue 10 (ip @ fp)) * pow10 (e - int (length fp))),
                      r')))"

definition strDecimalLiteral :: "jsstring \<Rightarrow> (number \<times> jsstring) option" where
  "strDecimalLiteral s =
     (case s of
        [] \<Rightarrow> None
      | c # r \<Rightarrow>
          if c = 45 then map_option (\<lambda>(n, r'). (negate n, r')) (strUnsignedDecimalLiteral r)
          else if c = 43 then strUnsignedDecimalLiteral r
          else strUnsignedDecimalLiteral s)"

text \<open>
  Binary, octal and hexadecimal integer literals: \<^verbatim>\<open>0\<close>, a letter for the radix
  and at least one digit of that radix. They take no sign.
\<close>

definition isHexDigit :: "int \<Rightarrow> bool" where
  "isHexDigit c \<longleftrightarrow> (48 \<le> c \<and> c \<le> 57) \<or> (97 \<le> c \<and> c \<le> 102) \<or> (65 \<le> c \<and> c \<le> 70)"

definition isOctalDigit :: "int \<Rightarrow> bool" where
  "isOctalDigit c \<longleftrightarrow> 48 \<le> c \<and> c \<le> 55"

definition isBinaryDigit :: "int \<Rightarrow> bool" where
  "isBinaryDigit c \<longleftrightarrow> c = 48 \<or> c = 49"

definition radixPrefix :: "int \<Rightarrow> int option" where
  "radixPrefix x =
     (if x = 120 \<or> x = 88 then Some 16
      else if x = 111 \<or> x = 79 then Some 8
      else if x = 98 \<or> x = 66 then Some 2
      else None)"

definition isRadixDigit :: "int \<Rightarrow> int \<Rightarrow> bool" where
  "isRadixDigit radix c =
     (if radix = 16 then isHexDigit c else if radix = 8 then isOctalDigit c else isBinaryDigit c)"

definition nonDecimalIntegerLiteral :: "jsstring \<Rightarrow> number option" where
  "nonDecimalIntegerLiteral s =
     (case s of
        z # x # ds \<Rightarrow>
          if z = 48 \<and> ds \<noteq> [] then
            (case radixPrefix x of
               None \<Rightarrow> None
             | Some radix \<Rightarrow>
                 if list_all (isRadixDigit radix) ds
                 then Some (toDouble (of_int (digitsValue radix ds)))
                 else None)
          else None
      | _ \<Rightarrow> None)"

text \<open>
  \<^verbatim>\<open>Number(s)\<close> on a string: white space is stripped from both ends, the empty string
  is 0, and the whole of what is left must be one numeric literal.
\<close>

definition toNumber :: "jsstring \<Rightarrow> number" where
  "toNumber s =
     (let t = trim s
      in if t = [] then Finite 0
         else
           case strDecimalLiteral t of
             Some (n, []) \<Rightarrow> n
           | _ \<Rightarrow> (case nonDecimalIntegerLiteral t of Some n \<Rightarrow> n | None \<Rightarrow> NaN))"

text \<open>The global \<^verbatim>\<open>isNaN\<close> converts its argument with \<^verbatim>\<open>Number\<close> first.\<close>

definition isNaN :: "jsstring \<Rightarrow> bool" where
  "isNaN s \<longleftrightarrow> toNumber s = NaN"

text \<open>
  \<^verbatim>\<open>parseFloat\<close> skips leading white space and reads the longest prefix that is a
  decimal literal, whatever follows it; it knows no other literal and yields NaN when
  there is no such prefix.
\<close>

definition parseFloat :: "jsstring \<Rightarrow> number" where
  "parseFloat s =
     (case strDecimalLiteral (dropWhile isWhiteSpace s) of
        None \<Rightarrow> NaN
      | Some (n, _) \<Rightarrow> n)"

subsection \<open>Relational comparison\<close>

datatype jsvalue = Num number | Str jsstring

fun numberLess :: "number \<Rightarrow> number \<Rightarrow> bool" where
  "numberLess NaN _ = False"
| "numberLess _ NaN = False"
| "numberLess Infinity _ = False"
| "numberLess _ NegInfinity = False"
| "numberLess NegInfinity _ = True"
| "numberLess _ Infinity = True"
| "numberLess (Finite a) (Finite b) = (a < b)"

fun stringLess :: "jsstring \<Rightarrow> jsstring \<Rightarrow> bool" where
  "stringLess _ [] = False"
| "stringLess [] (_ # _) = True"
| "stringLess (a # as) (b # bs) = (a < b \<or> (a = b \<and> stringLess as bs))"

fun toNumeric :: "jsvalue \<Rightarrow> number" where
  "toNumeric (Num n) = n"
| "toNumeric (Str s) = toNumber s"

text \<open>
  \<^verbatim>\<open>x < y\<close>: two strings are compared by code units; in every other case both sides
  are converted to numbers, and a comparison with NaN is false.
\<close>

fun jsLess :: "jsvalue \<Rightarrow> jsvalue \<Rightarrow> bool" where
  "jsLess (Str s) (Str t) = stringLess s t"
| "jsLess x y = numberLess (toNumeric x) (toNumeric y)"

definition jsGreater :: "jsvalue \<Rightarrow> jsvalue \<Rightarrow> bool" where
  "jsGreater x y = jsLess y x"

subsection \<open>Class lists\<close>

text \<open>A \<^verbatim>\<open>classList\<close> is an ordered set of tokens.\<close>

type_synonym classList = "string list"

definition contains :: "classList \<Rightarrow> string \<Rightarrow> bool" where
  "contains cl tok \<longleftrightarrow> tok \<in> set cl"

definition add :: "classList \<Rightarrow> string \<Rightarrow> classList" where
  "add cl tok = (if tok \<in> set cl then cl else cl @ [tok])"

definition remove :: "classList \<Rightarrow> string list \<Rightarrow> classList" where
  "remove cl toks = filter (\<lambda>c. c \<notin> set toks) cl"

definition toggle :: "classList \<Rightarrow> string \<Rightarrow> bool \<Rightarrow> classList" where
  "toggle cl tok force = (if force then add cl tok else remove cl [tok])"

section \<open>The document\<close>

text \<open>
  A body row is an element (\<open>node\<close> is its identity) with the text of its cells and its
  class list. The table is the class lists of its \<^verbatim>\<open>th\<close> elements in document order,
  as \<^verbatim>\<open>table.querySelectorAll('th')\<close> lists them, and the rows of its first
  \<^verbatim>\<open>tbody\<close>, if it has one.
\<close>

record row =
  node :: nat
  cells :: "jsstring list"
  classList :: classList

record table =
  headers :: "classList list"
  tbody :: "row list option"

datatype error = TypeError

section \<open>Sorting\<close>

text \<open>
  The value a cell is compared by:
  \<^verbatim>\<open>isNaN(cell) ? cell.toLowerCase() : parseFloat(cell)\<close>.
\<close>

definition sortValue :: "jsstring \<Rightarrow> jsvalue" where
  "sortValue cell = (if isNaN cell then Str (toLowerCase cell) else Num (parseFloat cell))"

text \<open>
  The comparator of \<^verbatim>\<open>rows.sort\<close>. \<^verbatim>\<open>a.cells[colIndex]\<close> is undefined when the
  row has no such cell, and reading \<^verbatim>\<open>textContent\<close> of it throws.
\<close>

definition compareRows :: "int \<Rightarrow> nat \<Rightarrow> row \<Rightarrow> row \<Rightarrow> error + int" where
  "compareRows direction colIndex a b =
     (if colIndex < length (cells a) then
        if colIndex < length (cells b) then
          (let cellA = trim (cells a ! colIndex);
               cellB = trim (cells b ! colIndex);
               aValue = sortValue cellA;
               bValue = sortValue cellB
           in if jsGreater aValue bValue then Inr direction
              else if jsLess aValue bValue then Inr (- direction)
              else Inr 0)
        else Inl TypeError
      else Inl TypeError)"

text \<open>
  \<^verbatim>\<open>Array.prototype.sort\<close> calls the comparator on pairs of elements; an exception
  of the comparator ends the sort. What the language says about the result depends on the
  comparator being a \<^emph>\<open>consistent comparator\<close> for the elements: it returns a number
  for every pair, every element equals itself, equality is symmetric and transitive, and so
  are ``less'' and ``greater''. \<open>verdict\<close> is the sign of what the comparator returns.
\<close>

definition verdict :: "('a \<Rightarrow> 'a \<Rightarrow> error + int) \<Rightarrow> 'a \<Rightarrow> 'a \<Rightarrow> int option" where
  "verdict cmp a b = (case cmp a b of Inl _ \<Rightarrow> None | Inr v \<Rightarrow> Some (sgn v))"

definition consistent :: "('a \<Rightarrow> 'a \<Rightarrow> error + int) \<Rightarrow> 'a list \<Rightarrow> bool" where
  "consistent cmp xs \<longleftrightarrow>
     (\<forall>a \<in> set xs. \<forall>b \<in> set xs. \<forall>c \<in> set xs.
        verdict cmp a b \<noteq> None \<and>
        verdict cmp a a = Some 0 \<and>
        (verdict cmp a b = Some 0 \<longrightarrow> verdict cmp b a = Some 0) \<and>
        (verdict cmp a b = Some 0 \<and> verdict cmp b c = Some 0 \<longrightarrow> verdict cmp a c = Some 0) \<and>
        (verdict cmp a b = Some (- 1) \<and> verdict cmp b c = Some (- 1) \<longrightarrow>
           verdict cmp a c = Some (- 1)) \<and>
        (verdict cmp a b = Some 1 \<and> verdict cmp b c = Some 1 \<longrightarrow> verdict cmp a c = Some 1))"

text \<open>
  For a consistent comparator the result is determined: the elements in the order of the
  comparator, those that compare equal in the order they had. The stable insertion sort
  computes it: an element goes before the first element it is not greater than. It stops at
  the first exception of the comparator.
\<close>

fun insertSorted :: "('a \<Rightarrow> 'a \<Rightarrow> error + int) \<Rightarrow> 'a \<Rightarrow> 'a list \<Rightarrow> error + 'a list" where
  "insertSorted cmp x [] = Inr [x]"
| "insertSorted cmp x (y # ys) =
     (case cmp x y of
        Inl e \<Rightarrow> Inl e
      | Inr c \<Rightarrow>
          if c \<le> 0 then Inr (x # y # ys)
          else (case insertSorted cmp x ys of Inl e \<Rightarrow> Inl e | Inr zs \<Rightarrow> Inr (y # zs)))"

fun stableSort :: "('a \<Rightarrow> 'a \<Rightarrow> error + int) \<Rightarrow> 'a list \<Rightarrow> error + 'a list" where
  "stableSort cmp [] = Inr []"
| "stableSort cmp (x # xs) =
     (case stableSort cmp xs of Inl e \<Rightarrow> Inl e | Inr ys \<Rightarrow> insertSorted cmp x ys)"

text \<open>
  For a comparator that is not consistent the order of the result is left to the engine,
  and engines differ. The engine's choice is a parameter of the model: a function that
  gives each position of the array a rank, the result being the elements in the order of
  their ranks (elements of equal rank in the order they had). Every order of the elements
  is the choice of some engine, and every choice is an order of the same elements.
\<close>

type_synonym 'a engine = "('a \<Rightarrow> 'a \<Rightarrow> error + int) \<Rightarrow> 'a list \<Rightarrow> nat \<Rightarrow> nat"

definition reorder :: "(nat \<Rightarrow> nat) \<Rightarrow> 'a list \<Rightarrow> 'a list" where
  "reorder rank xs = map snd (sort_key (\<lambda>(i, x). rank i) (enumerate 0 xs))"

text \<open>
  The comparator of \<open>sortTable\<close> throws on every pair that holds a row without the cell,
  and a sort of two or more elements compares each of them with another one; so whether
  the sort ends with the exception does not depend on the engine, and the model takes it
  from the insertion sort.
\<close>

definition arraySort :: "'a engine \<Rightarrow> ('a \<Rightarrow> 'a \<Rightarrow> error + int) \<Rightarrow> 'a list \<Rightarrow> error + 'a list" where
  "arraySort engine cmp xs =
     (case stableSort cmp xs of
        Inl e \<Rightarrow> Inl e
      | Inr ys \<Rightarrow> if consistent cmp xs then Inr ys else Inr (reorder (engine cmp xs) xs))"

text \<open>
  \<^verbatim>\<open>tbody.appendChild(row)\<close> moves a row that is already a child to the end.
\<close>

definition appendChild :: "row list \<Rightarrow> row \<Rightarrow> row list" where
  "appendChild children r = remove1 r children @ [r]"

text \<open>
  \<^verbatim>\<open>sortTable(colIndex, header)\<close>. The header element is given by its position
  among the \<^verbatim>\<open>th\<close> elements of the table. The click listeners are registered with
  \<^verbatim>\<open>forEach((header, index) => ...)\<close>, so a click calls the function with the same
  number twice (\<open>headerClick\<close>); a position beyond the last \<^verbatim>\<open>th\<close> stands for
  no element, and the model answers it with the exception as well. The call of
  \<^verbatim>\<open>console.log\<close> changes nothing in the document and is left out. \<open>engine\<close> is
  the engine's choice of order for \<^verbatim>\<open>rows.sort\<close>.
\<close>

definition sortTable :: "row engine \<Rightarrow> nat \<Rightarrow> nat \<Rightarrow> table \<Rightarrow> error + table" where
  "sortTable engine colIndex header t =
     (case tbody t of
        None \<Rightarrow> Inl TypeError
      | Some rows \<Rightarrow>
          if length (headers t) \<le> header then Inl TypeError
          else
            (let isAscending = contains (headers t ! header) ''sorted-asc'';
                 direction = (if isAscending then - 1 else 1);
                 cleared = map (\<lambda>th. remove th [''sorted-asc'', ''sorted-desc'']) (headers t)
             in case arraySort engine (compareRows direction colIndex) rows of
                  Inl e \<Rightarrow> Inl e
                | Inr sortedRows \<Rightarrow>
                    Inr \<lparr>headers = cleared[header :=
                            add (cleared ! header)
                              (if isAscending then ''sorted-desc'' else ''sorted-asc'')],
                         tbody = Some (fold (\<lambda>row children. appendChild children row) sortedRows rows)\<rparr>))"

definition headerClick :: "row engine \<Rightarrow> nat \<Rightarrow> table \<Rightarrow> error + table" where
  "headerClick engine index t = sortTable engine index index t"

section \<open>Filtering\<close>

text \<open>
  The \<^verbatim>\<open>change\<close> listener of the checkbox; \<open>checked\<close> is
  \<^verbatim>\<open>filterCheckbox.checked\<close>.
\<close>

definition filterRow :: "bool \<Rightarrow> row \<Rightarrow> row" where
  "filterRow checked r =
     (if checked then r\<lparr>classList := toggle (classList r) ''hidden'' (\<not> contains (classList r) ''error'')\<rparr>
      else r\<lparr>classList := remove (classList r) [''hidden'']\<rparr>)"

definition filterChange :: "bool \<Rightarrow> table \<Rightarrow> error + table" where
  "filterChange checked t =
     (case tbody t of
        None \<Rightarrow> Inl TypeError
      | Some rows \<Rightarrow> Inr (t\<lparr>tbody := Some (map (filterRow checked) rows)\<rparr>))"

text \<open>A sequence of \<^verbatim>\<open>change\<close> events, each with the state of the checkbox.\<close>

fun filterChanges :: "bool list \<Rightarrow> table \<Rightarrow> error + table" where
  "filterChanges [] t = Inr t"
| "filterChanges (checked # rest) t =
     (case filterChange checked t of Inl e \<Rightarrow> Inl e | Inr t' \<Rightarrow> filterChanges rest t')"

section \<open>Markers\<close>

text \<open>
  A header is marked when it carries \<^verbatim>\<open>sorted-asc\<close> or \<^verbatim>\<open>sorted-desc\<close>; a row
  is hidden when it carries \<^verbatim>\<open>hidden\<close>, and an error row when it carries
  \<^verbatim>\<open>error\<close>.
\<close>

definition marked :: "classList \<Rightarrow> bool" where
  "marked th \<longleftrightarrow> contains th ''sorted-asc'' \<or> contains th ''sorted-desc''"

definition hidden :: "row \<Rightarrow> bool" where
  "hidden r \<longleftrightarrow> contains (classList r) ''hidden''"

definition carriesError :: "row \<Rightarrow> bool" where
  "carriesError r \<longleftrightarrow> contains (classList r) ''error''"

section \<open>Order of the body\<close>

text \<open>
  The body is in ascending order of a column when no row comes before a row with a smaller
  derived value, that is when the value of no row is greater than that of a row after it;
  in descending order when the value of no row is less than that of a row after it.
\<close>

definition ascending :: "nat \<Rightarrow> row list \<Rightarrow> bool" where
  "ascending colIndex rows \<longleftrightarrow>
     sorted_wrt (\<lambda>a b. \<not> jsGreater (sortValue (trim (cells a ! colIndex)))
                                   (sortValue (trim (cells b ! colIndex)))) rows"

definition descending :: "nat \<Rightarrow> row list \<Rightarrow> bool" where
  "descending colIndex rows \<longleftrightarrow>
     sorted_wrt (\<lambda>a b. \<not> jsLess (sortValue (trim (cells a ! colIndex)))
                                (sortValue (trim (cells b ! colIndex)))) rows"

section \<open>The comparison key as the specification words it\<close>

text \<open>
  The specification describes the key of a cell as: ``if the trimmed text parses as a finite
  number the numeric value is used, otherwise the lower-cased text is used''. The following
  two definitions follow these words, for comparison with \<open>sortValue\<close> and
  \<open>compareRows\<close>; \<open>parse\<close> is the reading of ``parses'', either \<open>toNumber\<close> or
  \<open>parseFloat\<close>.
\<close>

definition claimedSortValue :: "(jsstring \<Rightarrow> number) \<Rightarrow> jsstring \<Rightarrow> jsvalue" where
  "claimedSortValue parse cell =
     (case parse cell of Finite q \<Rightarrow> Num (Finite q) | _ \<Rightarrow> Str (toLowerCase cell))"

definition claimedCompareRows ::
    "(jsstring \<Rightarrow> number) \<Rightarrow> int \<Rightarrow> nat \<Rightarrow> row \<Rightarrow> row \<Rightarrow> error + int" where
  "claimedCompareRows parse direction colIndex a b =
     (if colIndex < length (cells a) then
        if colIndex < length (cells b) then
          (let aValue = claimedSortValue parse (trim (cells a ! colIndex));
               bValue = claimedSortValue parse (trim (cells b ! colIndex))
           in if jsGreater aValue bValue then Inr direction
              else if jsLess aValue bValue then Inr (- direction)
              else Inr 0)
        else Inl TypeError
      else Inl TypeError)"

section \<open>An example document\<close>

text \<open>
  A table of three columns and three rows. The first header is marked ascending; the first
  row is an error row and the last one is hidden. The second column holds the numbers 10, 9
  and 2. The third holds 5, a text and 7: the text compares equal to both numbers, which
  are not equal, so the comparator is not consistent on this column.
\<close>

definition textRow :: "nat \<Rightarrow> string list \<Rightarrow> classList \<Rightarrow> row" where
  "textRow n texts classes = \<lparr>node = n, cells = map units texts, classList = classes\<rparr>"

definition rowA :: row where
  "rowA = textRow 0 [''Wiki A'', ''10'', ''5''] [''error'']"

definition rowB :: row where
  "rowB = textRow 1 [''wiki b'', '' 9 '', ''n/a''] []"

definition rowC :: row where
  "rowC = textRow 2 [''Wiki C'', ''2'', ''7''] [''hidden'']"

text \<open>
  An engine that, when the comparator is not consistent, moves the last element of the
  array to the front.
\<close>

definition rotating :: "row engine" where
  "rotating cmp xs i = (i + 1) mod length xs"

definition exampleTable :: table where
  "exampleTable = \<lparr>headers = [[''sorted-asc''], [], []], tbody = Some [rowA, rowB, rowC]\<rparr>"

text \<open>The same rows in another order, under headers that carry no marker.\<close>

definition shuffledTable :: table where
  "shuffledTable = \<lparr>headers = [[], [], []], tbody = Some [rowB, rowA, rowC]\<rparr>"

section \<open>The characters of a numeric text\<close>





section \<open>Properties of the host functions\<close>

subsection \<open>Trimming\<close>

lemma dropWhile_trim: "dropWhile isWhiteSpace (trim s) = trim s"
proof (cases "trim s")
  case Nil
  then show ?thesis by simp
next
  case (Cons c cs)
  let ?u = "dropWhile isWhiteSpace s"
  have "?u = rev (takeWhile isWhiteSpace (rev ?u) @ dropWhile isWhiteSpace (rev ?u))"
    by (simp only: takeWhile_dropWhile_id rev_rev_ident)
  then have u: "?u = trim s @ rev (takeWhile isWhiteSpace (rev ?u))"
    by (simp only: rev_append trim_def)
  with Cons have "hd ?u = c" and "?u \<noteq> []" by (metis append_Cons list.sel(1), metis append_is_Nil_conv list.distinct(1))
  then have "\<not> isWhiteSpace c" using hd_dropWhile [of isWhiteSpace s] by auto
  with Cons show ?thesis by simp
qed

lemma trim_trim: "trim (trim s) = trim s"
proof -
  have "trim (trim s) = rev (dropWhile isWhiteSpace (rev (trim s)))"
    by (simp add: trim_def [of "trim s"] dropWhile_trim)
  also have "rev (trim s) = dropWhile isWhiteSpace (rev (dropWhile isWhiteSpace s))"
    by (simp add: trim_def)
  also have "rev (dropWhile isWhiteSpace \<dots>) = trim s"
    by (simp add: trim_def)
  finally show ?thesis .
qed

subsection \<open>Literals never denote NaN\<close>

lemma toDouble_not_NaN: "toDouble x \<noteq> NaN"
  by (simp add: toDouble_def Let_def)

lemma negate_NaN: "negate n = NaN \<longleftrightarrow> n = NaN"
  by (cases n) simp_all

lemma strUnsignedDecimalLiteral_not_NaN: "strUnsignedDecimalLiteral s = Some (n, r) \<Longrightarrow> n \<noteq> NaN"
  by (auto simp: strUnsignedDecimalLiteral_def toDouble_not_NaN split: if_splits option.splits prod.splits)

lemma strDecimalLiteral_not_NaN: "strDecimalLiteral s = Some (n, r) \<Longrightarrow> n \<noteq> NaN"
  by (auto simp: strDecimalLiteral_def negate_NaN split: list.splits if_splits
      dest: strUnsignedDecimalLiteral_not_NaN)


lemma strDecimalLiteral_Nil: "strDecimalLiteral [] = None"
  by (simp add: strDecimalLiteral_def)

lemma toNumber_decimal:
  assumes "strDecimalLiteral (trim s) = Some (n, [])"
  shows "toNumber (trim s) = n"
proof -
  have "trim s \<noteq> []" using assms strDecimalLiteral_Nil by auto
  with assms show ?thesis by (simp add: toNumber_def trim_trim)
qed


lemma numberLess_NaN [simp]: "numberLess x NaN = False"
  by (cases x) simp_all

subsection \<open>Lower-casing a text that is no number\<close>





































section \<open>Properties of the sort\<close>

text \<open>
  The sort returns a permutation of the array, and it returns whenever the comparator
  does. For a consistent comparator the result is in the order of the comparator.
\<close>

lemma insertSorted_mset:
  "insertSorted cmp x ys = Inr zs \<Longrightarrow> mset zs = add_mset x (mset ys)"
  by (induction ys arbitrary: zs) (auto split: sum.splits if_splits)

lemma stableSort_mset: "stableSort cmp xs = Inr ys \<Longrightarrow> mset ys = mset xs"
  by (induction xs arbitrary: ys) (auto split: sum.splits dest: insertSorted_mset)

lemma insertSorted_total:
  "\<forall>y \<in> set ys. \<exists>c. cmp x y = Inr c \<Longrightarrow> \<exists>zs. insertSorted cmp x ys = Inr zs"
  by (induction ys) (auto split: sum.splits)

lemma stableSort_total:
  "\<forall>x \<in> set xs. \<forall>y \<in> set xs. \<exists>c. cmp x y = Inr c \<Longrightarrow> \<exists>ys. stableSort cmp xs = Inr ys"
proof (induction xs)
  case Nil
  show ?case by simp
next
  case (Cons x xs)
  then obtain ys where ys: "stableSort cmp xs = Inr ys" by auto
  have "set ys = set xs" using stableSort_mset [OF ys] by (rule mset_eq_setD)
  with Cons.prems have "\<forall>y \<in> set ys. \<exists>c. cmp x y = Inr c" by simp
  then obtain zs where "insertSorted cmp x ys = Inr zs"
    using insertSorted_total [of ys cmp x] by auto
  with ys show ?case by simp
qed

lemma mset_reorder: "mset (reorder rank xs) = mset xs"
  unfolding reorder_def by (metis mset_map mset_sort map_snd_enumerate)

lemma arraySort_mset:
  assumes "arraySort engine cmp xs = Inr ys"
  shows "mset ys = mset xs"
  using assms
  by (auto simp: arraySort_def mset_reorder split: sum.splits if_splits dest: stableSort_mset)

lemma arraySort_total:
  assumes "\<forall>x \<in> set xs. \<forall>y \<in> set xs. \<exists>c. cmp x y = Inr c"
  shows "\<exists>ys. arraySort engine cmp xs = Inr ys"
  using stableSort_total [OF assms] by (auto simp: arraySort_def)

lemma arraySort_consistent:
  "consistent cmp xs \<Longrightarrow> arraySort engine cmp xs = stableSort cmp xs"
  by (simp add: arraySort_def split: sum.splits)

lemma verdict_Inr: "cmp a b = Inr v \<Longrightarrow> verdict cmp a b = Some (sgn v)"
  by (simp add: verdict_def)

lemma verdict_range:
  "verdict cmp a b = None \<or> verdict cmp a b = Some (- 1) \<or> verdict cmp a b = Some 0 \<or>
   verdict cmp a b = Some 1"
  by (auto simp: verdict_def sgn_if split: sum.splits)

lemma consistent_greater_less:
  assumes "consistent cmp S" and "a \<in> set S" and "b \<in> set S"
    and "verdict cmp a b = Some 1"
  shows "verdict cmp b a = Some (- 1)"
proof -
  from assms(1-3) have 1: "verdict cmp b a \<noteq> None" and 2: "verdict cmp a a = Some 0"
    and 3: "verdict cmp b a = Some 0 \<longrightarrow> verdict cmp a b = Some 0"
    and 4: "verdict cmp a b = Some 1 \<and> verdict cmp b a = Some 1 \<longrightarrow> verdict cmp a a = Some 1"
    unfolding consistent_def by blast+
  from verdict_range [of cmp b a] 1 2 3 4 assms(4) show ?thesis by auto
qed

lemma consistent_less_greater:
  assumes "consistent cmp S" and "a \<in> set S" and "b \<in> set S"
    and "verdict cmp a b = Some (- 1)"
  shows "verdict cmp b a = Some 1"
proof -
  from assms(1-3) have 1: "verdict cmp b a \<noteq> None" and 2: "verdict cmp a a = Some 0"
    and 3: "verdict cmp b a = Some 0 \<longrightarrow> verdict cmp a b = Some 0"
    and 4: "verdict cmp a b = Some (- 1) \<and> verdict cmp b a = Some (- 1) \<longrightarrow>
              verdict cmp a a = Some (- 1)"
    unfolding consistent_def by blast+
  from verdict_range [of cmp b a] 1 2 3 4 assms(4) show ?thesis by auto
qed

lemma consistent_below:
  assumes c: "consistent cmp S" and S: "x \<in> set S" "y \<in> set S" "z \<in> set S"
    and xy: "verdict cmp x y = Some (- 1) \<or> verdict cmp x y = Some 0"
    and yz: "verdict cmp z y \<noteq> Some (- 1)"
  shows "verdict cmp z x \<noteq> Some (- 1)"
proof
  assume zx: "verdict cmp z x = Some (- 1)"
  from c S have lt: "verdict cmp z x = Some (- 1) \<and> verdict cmp x y = Some (- 1) \<longrightarrow>
      verdict cmp z y = Some (- 1)"
    and eq: "verdict cmp z y = Some 0 \<and> verdict cmp y x = Some 0 \<longrightarrow> verdict cmp z x = Some 0"
    and sym: "verdict cmp x y = Some 0 \<longrightarrow> verdict cmp y x = Some 0"
    and gt: "verdict cmp x z = Some 1 \<and> verdict cmp z y = Some 1 \<longrightarrow> verdict cmp x y = Some 1"
    and some: "verdict cmp z y \<noteq> None"
    unfolding consistent_def by blast+
  from xy show False
  proof
    assume "verdict cmp x y = Some (- 1)"
    with zx lt yz show False by simp
  next
    assume xy0: "verdict cmp x y = Some 0"
    from consistent_less_greater [OF c S(3,1) zx] have xz: "verdict cmp x z = Some 1" .
    from verdict_range [of cmp z y] some yz
    consider "verdict cmp z y = Some 0" | "verdict cmp z y = Some 1" by auto
    then show False
    proof cases
      case 1
      with eq sym xy0 zx show False by simp
    next
      case 2
      with gt xz xy0 show False by simp
    qed
  qed
qed

lemma set_insertSorted:
  assumes "insertSorted cmp x ys = Inr zs"
  shows "set zs = insert x (set ys)"
proof -
  from insertSorted_mset [OF assms] have "set_mset (mset zs) = set_mset (add_mset x (mset ys))"
    by simp
  then show ?thesis by simp
qed

lemma insertSorted_sorted:
  assumes "consistent cmp S" and "x \<in> set S" and "set ys \<subseteq> set S"
    and "sorted_wrt (\<lambda>a b. verdict cmp b a \<noteq> Some (- 1)) ys"
    and "insertSorted cmp x ys = Inr zs"
  shows "sorted_wrt (\<lambda>a b. verdict cmp b a \<noteq> Some (- 1)) zs"
  using assms(3-5)
proof (induction ys arbitrary: zs)
  case Nil
  then show ?case by auto
next
  case (Cons y ys)
  from Cons.prems(3) obtain v where v: "cmp x y = Inr v" by (auto split: sum.splits)
  then have xy: "verdict cmp x y = Some (sgn v)" by (rule verdict_Inr)
  from Cons.prems(1) have yS: "y \<in> set S" and ysS: "set ys \<subseteq> set S" by simp_all
  show ?case
  proof (cases "v \<le> 0")
    case True
    with v Cons.prems(3) have zs: "zs = x # y # ys" by simp
    from True xy have le: "verdict cmp x y = Some (- 1) \<or> verdict cmp x y = Some 0"
      by (auto simp: sgn_if)
    have "verdict cmp z x \<noteq> Some (- 1)" if "z \<in> set (y # ys)" for z
    proof -
      from that Cons.prems(1) have zS: "z \<in> set S" by auto
      from assms(1) yS have "verdict cmp y y = Some 0" unfolding consistent_def by blast
      with that Cons.prems(2) have "verdict cmp z y \<noteq> Some (- 1)" by auto
      from consistent_below [OF assms(1) assms(2) yS zS le this] show ?thesis .
    qed
    with Cons.prems(2) zs show ?thesis by simp
  next
    case False
    with v Cons.prems(3) obtain zs' where ins: "insertSorted cmp x ys = Inr zs'" and zs: "zs = y # zs'"
      by (auto split: sum.splits)
    from Cons.prems(2) have "sorted_wrt (\<lambda>a b. verdict cmp b a \<noteq> Some (- 1)) ys" by simp
    from Cons.IH [OF ysS this ins] have sorted: "sorted_wrt (\<lambda>a b. verdict cmp b a \<noteq> Some (- 1)) zs'" .
    from False xy have "verdict cmp x y = Some 1" by (simp add: sgn_if)
    then have "verdict cmp x y \<noteq> Some (- 1)" by simp
    with Cons.prems(2) set_insertSorted [OF ins] have "\<forall>z \<in> set zs'. verdict cmp z y \<noteq> Some (- 1)"
      by auto
    with sorted zs show ?thesis by simp
  qed
qed

lemma stableSort_sorted_in:
  assumes "consistent cmp S" and "set xs \<subseteq> set S" and "stableSort cmp xs = Inr ys"
  shows "sorted_wrt (\<lambda>a b. verdict cmp b a \<noteq> Some (- 1)) ys"
  using assms(2,3)
proof (induction xs arbitrary: ys)
  case Nil
  then show ?case by simp
next
  case (Cons x xs)
  from Cons.prems(2) obtain ys' where s: "stableSort cmp xs = Inr ys'"
    and i: "insertSorted cmp x ys' = Inr ys" by (auto split: sum.splits)
  from Cons.prems(1) have x: "x \<in> set S" and xs: "set xs \<subseteq> set S" by simp_all
  from stableSort_mset [OF s] have "set ys' = set xs" by (rule mset_eq_setD)
  with xs have "set ys' \<subseteq> set S" by simp
  from insertSorted_sorted [OF assms(1) x this Cons.IH [OF xs s] i] show ?case .
qed

lemma stableSort_sorted:
  assumes "consistent cmp xs" and "stableSort cmp xs = Inr ys"
  shows "sorted_wrt (\<lambda>a b. verdict cmp b a \<noteq> Some (- 1)) ys"
  using stableSort_sorted_in [OF assms(1) subset_refl assms(2)] .

lemma consistent_total:
  assumes "consistent cmp xs"
  shows "\<exists>ys. stableSort cmp xs = Inr ys"
proof (rule stableSort_total, intro ballI)
  fix x y assume "x \<in> set xs" "y \<in> set xs"
  with assms have "verdict cmp x y \<noteq> None" unfolding consistent_def by blast
  then show "\<exists>c. cmp x y = Inr c" by (auto simp: verdict_def split: sum.splits)
qed

text \<open>
  For a consistent comparator, elements that compare equal keep the order they had.
\<close>

lemma insertSorted_stable:
  assumes "consistent cmp S" and "a \<in> set S" and "x \<in> set S" and "set ys \<subseteq> set S"
    and "insertSorted cmp x ys = Inr zs"
  shows "filter (\<lambda>b. verdict cmp a b = Some 0) zs = filter (\<lambda>b. verdict cmp a b = Some 0) (x # ys)"
  using assms(4,5)
proof (induction ys arbitrary: zs)
  case Nil
  then show ?case by auto
next
  case (Cons y ys)
  from Cons.prems(2) obtain v where v: "cmp x y = Inr v" by (auto split: sum.splits)
  then have xy: "verdict cmp x y = Some (sgn v)" by (rule verdict_Inr)
  from Cons.prems(1) have yS: "y \<in> set S" and ysS: "set ys \<subseteq> set S" by simp_all
  show ?case
  proof (cases "v \<le> 0")
    case True
    with v Cons.prems(2) show ?thesis by simp
  next
    case False
    with v Cons.prems(2) obtain zs' where ins: "insertSorted cmp x ys = Inr zs'" and zs: "zs = y # zs'"
      by (auto split: sum.splits)
    from False xy have gt: "verdict cmp x y = Some 1" by (simp add: sgn_if)
    have "\<not> (verdict cmp a x = Some 0 \<and> verdict cmp a y = Some 0)"
    proof
      assume both: "verdict cmp a x = Some 0 \<and> verdict cmp a y = Some 0"
      from assms(1,2,3) yS have "verdict cmp a x = Some 0 \<longrightarrow> verdict cmp x a = Some 0"
        and "verdict cmp x a = Some 0 \<and> verdict cmp a y = Some 0 \<longrightarrow> verdict cmp x y = Some 0"
        unfolding consistent_def by blast+
      with both gt show False by simp
    qed
    with Cons.IH [OF ysS ins] zs show ?thesis by auto
  qed
qed

lemma stableSort_stable_in:
  assumes "consistent cmp S" and "a \<in> set S" and "set xs \<subseteq> set S" and "stableSort cmp xs = Inr ys"
  shows "filter (\<lambda>b. verdict cmp a b = Some 0) ys = filter (\<lambda>b. verdict cmp a b = Some 0) xs"
  using assms(3,4)
proof (induction xs arbitrary: ys)
  case Nil
  then show ?case by simp
next
  case (Cons x xs)
  from Cons.prems(2) obtain ys' where s: "stableSort cmp xs = Inr ys'"
    and i: "insertSorted cmp x ys' = Inr ys" by (auto split: sum.splits)
  from Cons.prems(1) have x: "x \<in> set S" and xs: "set xs \<subseteq> set S" by simp_all
  from stableSort_mset [OF s] have "set ys' = set xs" by (rule mset_eq_setD)
  with xs have "set ys' \<subseteq> set S" by simp
  from insertSorted_stable [OF assms(1,2) x this i] Cons.IH [OF xs s] show ?case by simp
qed

lemma stableSort_stable:
  assumes "consistent cmp xs" and "a \<in> set xs" and "stableSort cmp xs = Inr ys"
  shows "filter (\<lambda>b. verdict cmp a b = Some 0) ys = filter (\<lambda>b. verdict cmp a b = Some 0) xs"
  using stableSort_stable_in [OF assms(1,2) subset_refl assms(3)] .

text \<open>
  Every order of the elements of an array is the choice of some engine: ranks can be
  given to the positions so that the elements come out in that order.
\<close>

lemma insort_key_strict_mono:
  fixes b :: "nat \<Rightarrow> nat"
  assumes "strict_mono b"
  shows "insort_key (\<lambda>x. b (k x)) a l = insort_key k a l"
  using assms by (induction l) (simp_all add: strict_mono_less_eq)

lemma sort_key_strict_mono:
  fixes b :: "nat \<Rightarrow> nat"
  assumes "strict_mono b"
  shows "sort_key (\<lambda>x. b (k x)) l = sort_key k l"
  by (induction l) (simp_all add: insort_key_strict_mono [OF assms])

lemma insort_key_agree:
  assumes "\<forall>x \<in> set (a # l). k x = k' x"
  shows "insort_key k a l = insort_key k' a l"
  using assms by (induction l) simp_all

lemma sort_key_agree:
  assumes "\<forall>x \<in> set l. k x = k' x"
  shows "sort_key k l = sort_key k' l"
  using assms
proof (induction l)
  case Nil
  then show ?case by simp
next
  case (Cons a l)
  then have "sort_key k l = sort_key k' l" by simp
  moreover have "\<forall>x \<in> set (a # sort_key k' l). k x = k' x" using Cons.prems by simp
  ultimately show ?case by (simp add: insort_key_agree)
qed

lemma insort_key_between:
  fixes f :: "'a \<Rightarrow> nat"
  assumes "\<forall>y \<in> set l1. f y < f a" and "\<forall>y \<in> set l2. f a \<le> f y"
  shows "insort_key f a (l1 @ l2) = l1 @ a # l2"
  using assms
proof (induction l1)
  case Nil
  then show ?case by (cases l2) simp_all
next
  case (Cons y l1)
  then show ?case by simp
qed

lemma upt_insert:
  assumes "m \<le> n"
  shows "[0..<m] @ m # map Suc [m..<n] = [0..<Suc n]"
proof -
  have "m # map Suc [m..<n] = [m..<Suc n]" using assms by (simp add: map_Suc_upt upt_conv_Cons)
  moreover have "[0..<m] @ [m..<Suc n] = [0..<Suc n]"
    using assms upt_add_eq_append [of 0 m "Suc n - m"] by simp
  ultimately show ?thesis by simp
qed

lemma ranks_any:
  assumes "mset ys = mset xs"
  shows "\<exists>rank. map snd (sort_key (\<lambda>(i, x). rank i) (enumerate n xs)) = ys \<and>
           map (\<lambda>(i, x). rank i) (sort_key (\<lambda>(i, x). rank i) (enumerate n xs)) = [0..<length xs]"
  using assms
proof (induction xs arbitrary: ys n)
  case Nil
  then show ?case by simp
next
  case (Cons x xs)
  from Cons.prems have "x \<in> set ys" by (metis list.set_intros(1) mset_eq_setD)
  then obtain as bs where ys: "ys = as @ x # bs" by (auto dest: split_list)
  with Cons.prems have rest: "mset (as @ bs) = mset xs" by simp
  from Cons.IH [OF rest, of "Suc n"] obtain rank' where
    snd': "map snd (sort_key (\<lambda>(i, x). rank' i) (enumerate (Suc n) xs)) = as @ bs" and
    keys': "map (\<lambda>(i, x). rank' i) (sort_key (\<lambda>(i, x). rank' i) (enumerate (Suc n) xs))
       = [0..<length xs]"
    by blast
  define key' :: "nat \<times> 'a \<Rightarrow> nat" where "key' = (\<lambda>(i, x). rank' i)"
  define S where "S = sort_key key' (enumerate (Suc n) xs)"
  define m where "m = length as"
  define bump where "bump r = (if r < m then r else Suc r)" for r
  define rank where "rank i = (if i = n then m else bump (rank' i))" for i
  define key :: "nat \<times> 'a \<Rightarrow> nat" where "key = (\<lambda>(i, x). rank i)"
  have snd: "map snd S = as @ bs" and keys: "map key' S = [0..<length xs]"
    using snd' keys' by (simp_all add: S_def key'_def)
  have sm: "strict_mono bump" by (auto simp: strict_mono_def bump_def)
  have agree: "\<forall>p \<in> set (enumerate (Suc n) xs). key p = bump (key' p)"
    by (auto simp: key_def key'_def rank_def in_set_enumerate_eq)
  have "sort_key key (enumerate (Suc n) xs) = sort_key (\<lambda>p. bump (key' p)) (enumerate (Suc n) xs)"
    using agree by (rule sort_key_agree)
  also have "\<dots> = S" unfolding S_def using sm by (rule sort_key_strict_mono)
  finally have sorted: "sort_key key (enumerate (Suc n) xs) = S" .
  have "set S = set (enumerate (Suc n) xs)" by (simp add: S_def)
  with agree have "map key S = map bump (map key' S)" by simp
  with keys have keyS: "map key S = map bump [0..<length xs]" by simp
  from rest have "length (as @ bs) = length xs" by (metis size_mset)
  then have m: "m \<le> length xs" by (simp add: m_def)
  have k: "key (n, x) = m" by (simp add: key_def rank_def)
  have "map key (take m S) = take m (map bump [0..<length xs])"
    unfolding keyS [symmetric] by (rule take_map [symmetric])
  also have "\<dots> = map bump [0..<m]" using m by (simp add: take_map min_def)
  also have "\<dots> = [0..<m]" by (rule map_idI) (simp add: bump_def)
  finally have lowkeys: "map key (take m S) = [0..<m]" .
  have "map key (drop m S) = drop m (map bump [0..<length xs])"
    unfolding keyS [symmetric] by (rule drop_map [symmetric])
  also have "\<dots> = map bump [m..<length xs]" by (simp add: drop_map)
  also have "\<dots> = map Suc [m..<length xs]" by (rule map_cong) (simp_all add: bump_def)
  finally have highkeys: "map key (drop m S) = map Suc [m..<length xs]" .
  have low: "\<forall>y \<in> set (take m S). key y < key (n, x)"
  proof
    fix y assume "y \<in> set (take m S)"
    then have "key y \<in> set (map key (take m S))" by simp
    then show "key y < key (n, x)" unfolding lowkeys k by simp
  qed
  have high: "\<forall>y \<in> set (drop m S). key (n, x) \<le> key y"
  proof
    fix y assume "y \<in> set (drop m S)"
    then have "key y \<in> set (map key (drop m S))" by simp
    then show "key (n, x) \<le> key y" unfolding highkeys k by auto
  qed
  have "sort_key key (enumerate n (x # xs)) = insort_key key (n, x) (take m S @ drop m S)"
    by (simp add: sorted)
  also have "\<dots> = take m S @ (n, x) # drop m S" using low high by (rule insort_key_between)
  finally have result: "sort_key key (enumerate n (x # xs)) = take m S @ (n, x) # drop m S" .
  have "map snd (take m S @ (n, x) # drop m S) = take m (map snd S) @ x # drop m (map snd S)"
    by (simp add: take_map drop_map)
  also have "\<dots> = take m (as @ bs) @ x # drop m (as @ bs)" by (simp only: snd)
  also have "\<dots> = ys" by (simp add: m_def ys)
  finally have 1: "map snd (sort_key key (enumerate n (x # xs))) = ys" by (simp only: result)
  have "map key (take m S @ (n, x) # drop m S) = [0..<m] @ m # map Suc [m..<length xs]"
    using lowkeys highkeys k by simp
  also have "\<dots> = [0..<Suc (length xs)]" using m by (rule upt_insert)
  finally have "map key (take m S @ (n, x) # drop m S) = [0..<Suc (length xs)]" .
  then have 2: "map key (sort_key key (enumerate n (x # xs))) = [0..<length (x # xs)]"
    unfolding result [symmetric] by simp
  from 1 2 show ?case unfolding key_def by blast
qed

lemma reorder_any:
  assumes "mset ys = mset xs"
  shows "\<exists>rank. reorder rank xs = ys"
  using ranks_any [OF assms, of 0] unfolding reorder_def by blast

lemma arraySort_any:
  assumes "\<not> consistent cmp xs" and "stableSort cmp xs = Inr zs" and "mset ys = mset xs"
  shows "\<exists>engine. arraySort engine cmp xs = Inr ys"
proof -
  from reorder_any [OF assms(3)] obtain rank where "reorder rank xs = ys" ..
  then have "arraySort (\<lambda>cmp xs. rank) cmp xs = Inr ys" using assms(1,2) by (simp add: arraySort_def)
  then show ?thesis by blast
qed

section \<open>Properties of the handlers\<close>

subsection \<open>Sort values\<close>

lemma sortValue_decimal:
  assumes "strDecimalLiteral (trim s) = Some (n, [])"
  shows "sortValue (trim s) = Num n"
proof -
  have "toNumber (trim s) = n" using assms by (rule toNumber_decimal)
  moreover have "n \<noteq> NaN" using assms by (rule strDecimalLiteral_not_NaN)
  moreover have "parseFloat (trim s) = n" using assms by (simp add: parseFloat_def dropWhile_trim)
  ultimately show ?thesis by (simp add: sortValue_def isNaN_def)
qed


lemma sortValue_examples:
  "sortValue (units ''10'') = Num (Finite 10)"
  "sortValue (units ''9'') = Num (Finite 9)"
  "sortValue (units ''2'') = Num (Finite 2)"
  by code_simp+

lemma compareRows_total:
  "colIndex < length (cells a) \<Longrightarrow> colIndex < length (cells b) \<Longrightarrow>
   \<exists>c. compareRows direction colIndex a b = Inr c"
  by (simp add: compareRows_def Let_def)


subsection \<open>The body and the class lists\<close>

lemma fold_appendChild_acc:
  "mset ys = mset rest \<Longrightarrow>
   fold (\<lambda>row children. appendChild children row) ys (rest @ acc) = acc @ ys"
proof (induction ys arbitrary: rest acc)
  case Nil
  then show ?case by simp
next
  case (Cons y ys)
  have mem: "y \<in> set rest" using mset_eq_setD [OF Cons.prems] by auto
  have rest: "mset ys = mset (remove1 y rest)" 
  proof -
    have "mset (remove1 y rest) = mset rest - {#y#}" by simp
    also have "\<dots> = mset (y # ys) - {#y#}" using Cons.prems by simp
    finally show ?thesis by simp
  qed
  have "appendChild (rest @ acc) y = remove1 y rest @ (acc @ [y])"
    using mem by (simp add: appendChild_def remove1_append)
  then show ?case using Cons.IH [OF rest, of "acc @ [y]"] by simp
qed

lemma fold_appendChild:
  "mset ys = mset rows \<Longrightarrow> fold (\<lambda>row children. appendChild children row) ys rows = ys"
  using fold_appendChild_acc [of ys rows "[]"] by simp

lemma contains_add: "contains (add cl tok) tok' \<longleftrightarrow> tok' = tok \<or> contains cl tok'"
  by (auto simp: contains_def add_def)

lemma contains_remove: "contains (remove cl toks) tok \<longleftrightarrow> contains cl tok \<and> tok \<notin> set toks"
  by (auto simp: contains_def remove_def)

lemma contains_toggle:
  "contains (toggle cl tok force) tok' \<longleftrightarrow> (if tok' = tok then force else contains cl tok')"
  by (auto simp: toggle_def contains_add contains_remove)

lemma sortTable_Inr:
  assumes "sortTable engine colIndex header t = Inr t'"
  obtains rows sortedRows where
    "tbody t = Some rows"
    "header < length (headers t)"
    "arraySort engine
       (compareRows (if contains (headers t ! header) ''sorted-asc'' then - 1 else 1) colIndex) rows
       = Inr sortedRows"
    "tbody t' = Some sortedRows"
    "headers t' = (map (\<lambda>th. remove th [''sorted-asc'', ''sorted-desc'']) (headers t))
       [header := add (remove (headers t ! header) [''sorted-asc'', ''sorted-desc''])
          (if contains (headers t ! header) ''sorted-asc'' then ''sorted-desc'' else ''sorted-asc'')]"
proof -
  from assms obtain rows where rows: "tbody t = Some rows"
    by (auto simp: sortTable_def split: option.splits)
  from assms rows have h: "header < length (headers t)"
    by (auto simp: sortTable_def split: if_splits)
  let ?d = "if contains (headers t ! header) ''sorted-asc'' then - 1 else (1::int)"
  from assms rows h obtain sortedRows where
    s: "arraySort engine (compareRows ?d colIndex) rows = Inr sortedRows"
    by (auto simp: sortTable_def Let_def split: sum.splits)
  have body: "fold (\<lambda>row children. appendChild children row) sortedRows rows = sortedRows"
    using fold_appendChild [OF arraySort_mset [OF s]] .
  from assms rows h s body have "tbody t' = Some sortedRows"
    by (auto simp: sortTable_def Let_def)
  moreover from assms rows h s have "headers t' =
      (map (\<lambda>th. remove th [''sorted-asc'', ''sorted-desc'']) (headers t))
       [header := add (remove (headers t ! header) [''sorted-asc'', ''sorted-desc''])
          (if contains (headers t ! header) ''sorted-asc'' then ''sorted-desc'' else ''sorted-asc'')]"
    by (auto simp: sortTable_def Let_def)
  ultimately show thesis using rows h s that by blast
qed

lemma filterRow_frame [simp]:
  "node (filterRow checked r) = node r" "cells (filterRow checked r) = cells r"
  by (simp_all add: filterRow_def)

lemma filterRow_error [simp]: "carriesError (filterRow checked r) = carriesError r"
  by (simp add: filterRow_def carriesError_def contains_toggle contains_remove)

lemma filterRow_hidden [simp]: "hidden (filterRow checked r) \<longleftrightarrow> checked \<and> \<not> carriesError r"
  by (simp add: filterRow_def hidden_def carriesError_def contains_toggle contains_remove)

lemma filterChange_Some:
  "tbody t = Some rows \<Longrightarrow> filterChange checked t = Inr (t\<lparr>tbody := Some (map (filterRow checked) rows)\<rparr>)"
  by (simp add: filterChange_def)

lemma filterChange_Inr:
  "filterChange checked t = Inr t' \<Longrightarrow>
   \<exists>rows. tbody t = Some rows \<and> t' = t\<lparr>tbody := Some (map (filterRow checked) rows)\<rparr>"
  by (auto simp: filterChange_def split: option.splits)

lemma filterChanges_total:
  "tbody t = Some rows \<Longrightarrow>
   \<exists>t' rows'. filterChanges cs t = Inr t' \<and> tbody t' = Some rows' \<and> headers t' = headers t \<and>
     map node rows' = map node rows \<and> map cells rows' = map cells rows"
proof (induction cs arbitrary: t rows)
  case Nil
  then show ?case by simp
next
  case (Cons c cs)
  let ?t = "t\<lparr>tbody := Some (map (filterRow c) rows)\<rparr>"
  have step: "filterChange c t = Inr ?t" using Cons.prems by (rule filterChange_Some)
  have "tbody ?t = Some (map (filterRow c) rows)" by simp
  from Cons.IH [OF this] step show ?case by (auto simp: comp_def)
qed

lemma filterChanges_append:
  "filterChanges (cs @ ds) t =
     (case filterChanges cs t of Inl e \<Rightarrow> Inl e | Inr t' \<Rightarrow> filterChanges ds t')"
  by (induction cs arbitrary: t) (auto split: sum.splits)

subsection \<open>The order of the sort values\<close>

text \<open>
  ``Less'' is a strict order on the numbers other than NaN and on the texts. With the
  direction negated the comparator is consistent on the same arrays, and the result of a
  sort with a consistent comparator is in ascending resp. descending order of the column.
\<close>

lemma numberLess_irrefl: "\<not> numberLess x x"
  by (cases x) simp_all

lemma numberLess_asym: "numberLess x y \<Longrightarrow> \<not> numberLess y x"
  by (cases x; cases y) simp_all

lemma stringLess_irrefl: "\<not> stringLess s s"
  by (induction s) simp_all

lemma stringLess_asym: "stringLess s t \<Longrightarrow> \<not> stringLess t s"
  by (induction s t rule: stringLess.induct) auto

lemma jsLess_irrefl: "\<not> jsLess x x"
  by (cases x) (simp_all add: numberLess_irrefl stringLess_irrefl)

lemma jsLess_asym: "jsLess x y \<Longrightarrow> \<not> jsLess y x"
  by (cases x; cases y) (auto dest: numberLess_asym stringLess_asym)

lemma compareRows_neg:
  "compareRows (- d) colIndex a b =
     (case compareRows d colIndex a b of Inl e \<Rightarrow> Inl e | Inr v \<Rightarrow> Inr (- v))"
  by (simp add: compareRows_def Let_def)

lemma verdict_neg:
  "verdict (compareRows (- d) colIndex) a b = map_option uminus (verdict (compareRows d colIndex) a b)"
  by (simp add: verdict_def compareRows_neg sgn_minus split: sum.splits)

lemma map_option_uminus_eq:
  "map_option uminus v = Some (0::int) \<longleftrightarrow> v = Some 0"
  "map_option uminus v = Some (1::int) \<longleftrightarrow> v = Some (- 1)"
  "map_option uminus v = Some (- 1::int) \<longleftrightarrow> v = Some 1"
  "map_option uminus v = None \<longleftrightarrow> v = None"
  by (cases v; auto)+

lemma consistent_neg:
  "consistent (compareRows (- d) colIndex) xs = consistent (compareRows d colIndex) xs"
  unfolding consistent_def verdict_neg map_option_uminus_eq by blast

lemma consistent_cells:
  assumes "consistent (compareRows d colIndex) xs" and "r \<in> set xs"
  shows "colIndex < length (cells r)"
proof -
  from assms have "verdict (compareRows d colIndex) r r \<noteq> None" unfolding consistent_def by blast
  then show ?thesis by (auto simp: verdict_def compareRows_def split: if_splits)
qed

lemma verdict_ascending:
  assumes "colIndex < length (cells a)" and "colIndex < length (cells b)"
    and "verdict (compareRows 1 colIndex) b a \<noteq> Some (- 1)"
  shows "\<not> jsGreater (sortValue (trim (cells a ! colIndex))) (sortValue (trim (cells b ! colIndex)))"
  using assms jsLess_asym
  by (auto simp: verdict_def compareRows_def jsGreater_def Let_def split: if_splits)

lemma verdict_descending:
  assumes "colIndex < length (cells a)" and "colIndex < length (cells b)"
    and "verdict (compareRows (- 1) colIndex) b a \<noteq> Some (- 1)"
  shows "\<not> jsLess (sortValue (trim (cells a ! colIndex))) (sortValue (trim (cells b ! colIndex)))"
  using assms
  by (auto simp: verdict_def compareRows_def jsGreater_def Let_def split: if_splits)

lemma sorted_ascending:
  assumes "consistent (compareRows 1 colIndex) xs"
    and "arraySort engine (compareRows 1 colIndex) xs = Inr ys"
  shows "ascending colIndex ys"
proof -
  from assms have s: "stableSort (compareRows 1 colIndex) xs = Inr ys"
    by (simp add: arraySort_consistent)
  then have "set ys = set xs" by (intro mset_eq_setD stableSort_mset)
  then have cells: "\<And>r. r \<in> set ys \<Longrightarrow> colIndex < length (cells r)"
    using consistent_cells [OF assms(1)] by simp
  from stableSort_sorted [OF assms(1) s] show ?thesis
    unfolding ascending_def
    by (rule sorted_wrt_mono_rel [rotated]) (simp add: verdict_ascending cells)
qed

lemma sorted_descending:
  assumes "consistent (compareRows 1 colIndex) xs"
    and "arraySort engine (compareRows (- 1) colIndex) xs = Inr ys"
  shows "descending colIndex ys"
proof -
  from assms(1) have c: "consistent (compareRows (- 1) colIndex) xs" by (simp add: consistent_neg)
  with assms(2) have s: "stableSort (compareRows (- 1) colIndex) xs = Inr ys"
    by (simp add: arraySort_consistent)
  then have "set ys = set xs" by (intro mset_eq_setD stableSort_mset)
  then have cells: "\<And>r. r \<in> set ys \<Longrightarrow> colIndex < length (cells r)"
    using consistent_cells [OF assms(1)] by simp
  from stableSort_sorted [OF c s] show ?thesis
    unfolding descending_def
    by (rule sorted_wrt_mono_rel [rotated]) (simp add: verdict_descending cells)
qed

subsection \<open>Columns on which the comparator is consistent\<close>

text \<open>
  The comparator is consistent on a column of numbers none of which is NaN, and on a
  column of texts.
\<close>

lemma mset_three:
  assumes "mset xs = mset [a, b, c]"
  shows "xs \<in> {[a, b, c], [a, c, b], [b, a, c], [b, c, a], [c, a, b], [c, b, a]}"
proof -
  from assms have "size (mset xs) = size (mset [a, b, c])" by simp
  then have "length xs = Suc (Suc (Suc 0))" by simp
  then obtain x y z where xs: "xs = [x, y, z]"
    by (auto simp: length_Suc_conv)
  from assms show ?thesis unfolding xs
    by (auto simp: add_eq_conv_ex)
qed

lemma consistent_set: "set xs = set ys \<Longrightarrow> consistent cmp xs = consistent cmp ys"
  by (simp add: consistent_def)

lemma consistent_strict_order:
  fixes lt :: "'k \<Rightarrow> 'k \<Rightarrow> bool" and k :: "'a \<Rightarrow> 'k"
  assumes v: "\<And>a b. a \<in> set xs \<Longrightarrow> b \<in> set xs \<Longrightarrow>
      verdict cmp a b = Some (if lt (k b) (k a) then 1 else if lt (k a) (k b) then - 1 else 0)"
    and irrefl: "\<And>a. a \<in> set xs \<Longrightarrow> \<not> lt (k a) (k a)"
    and trans: "\<And>a b c. a \<in> set xs \<Longrightarrow> b \<in> set xs \<Longrightarrow> c \<in> set xs \<Longrightarrow>
      lt (k a) (k b) \<Longrightarrow> lt (k b) (k c) \<Longrightarrow> lt (k a) (k c)"
    and total: "\<And>a b. a \<in> set xs \<Longrightarrow> b \<in> set xs \<Longrightarrow> lt (k a) (k b) \<or> k a = k b \<or> lt (k b) (k a)"
  shows "consistent cmp xs"
  unfolding consistent_def
proof (intro ballI conjI impI)
  fix a b c assume S: "a \<in> set xs" "b \<in> set xs" "c \<in> set xs"
  have asym: "\<not> (lt (k x) (k y) \<and> lt (k y) (k x))" if "x \<in> set xs" "y \<in> set xs" for x y
    using trans [OF that(1) that(2) that(1)] irrefl [OF that(1)] by blast
  have eq: "k x = k y" if "x \<in> set xs" "y \<in> set xs" "verdict cmp x y = Some 0" for x y
    using that total [OF that(1,2)] by (auto simp: v split: if_splits)
  have less: "lt (k x) (k y)" if "x \<in> set xs" "y \<in> set xs" "verdict cmp x y = Some (- 1)" for x y
    using that by (auto simp: v split: if_splits)
  have greater: "lt (k y) (k x)" if "x \<in> set xs" "y \<in> set xs" "verdict cmp x y = Some 1" for x y
    using that by (auto simp: v split: if_splits)
  show "verdict cmp a b \<noteq> None" using S by (simp add: v)
  show "verdict cmp a a = Some 0" using S irrefl by (simp add: v)
  show "verdict cmp b a = Some 0" if "verdict cmp a b = Some 0"
    using eq [OF S(1,2) that] S irrefl by (simp add: v)
  show "verdict cmp a c = Some 0" if "verdict cmp a b = Some 0 \<and> verdict cmp b c = Some 0"
    using eq [OF S(1,2)] eq [OF S(2,3)] that S irrefl by (simp add: v)
  show "verdict cmp a c = Some (- 1)"
    if "verdict cmp a b = Some (- 1) \<and> verdict cmp b c = Some (- 1)"
  proof -
    from that have "lt (k a) (k c)" using trans [OF S] less [OF S(1,2)] less [OF S(2,3)] by blast
    with asym [OF S(1,3)] S show ?thesis by (auto simp: v)
  qed
  show "verdict cmp a c = Some 1" if "verdict cmp a b = Some 1 \<and> verdict cmp b c = Some 1"
  proof -
    from that have "lt (k c) (k a)"
      using trans [OF S(3,2,1)] greater [OF S(1,2)] greater [OF S(2,3)] by blast
    with S show ?thesis by (simp add: v)
  qed
qed

lemma verdict_compareRows:
  assumes "colIndex < length (cells a)" and "colIndex < length (cells b)"
  shows "verdict (compareRows 1 colIndex) a b =
     Some (if jsLess (sortValue (trim (cells b ! colIndex))) (sortValue (trim (cells a ! colIndex))) then 1
           else if jsLess (sortValue (trim (cells a ! colIndex))) (sortValue (trim (cells b ! colIndex)))
           then - 1 else 0)"
  using assms by (simp add: verdict_def compareRows_def jsGreater_def Let_def)

lemma numberLess_trans: "numberLess x y \<Longrightarrow> numberLess y z \<Longrightarrow> numberLess x z"
  by (cases x; cases y; cases z) simp_all

lemma numberLess_total: "x \<noteq> NaN \<Longrightarrow> y \<noteq> NaN \<Longrightarrow> numberLess x y \<or> x = y \<or> numberLess y x"
  by (cases x; cases y) auto

lemma stringLess_trans: "stringLess s t \<Longrightarrow> stringLess t u \<Longrightarrow> stringLess s u"
proof (induction s t arbitrary: u rule: stringLess.induct)
  case (1 s)
  then show ?case by simp
next
  case (2 b bs)
  then show ?case by (cases u) simp_all
next
  case (3 a as b bs)
  then show ?case by (cases u) auto
qed

lemma stringLess_total: "stringLess s t \<or> s = t \<or> stringLess t s"
proof (induction s t rule: stringLess.induct)
  case (1 s)
  then show ?case by (cases s) simp_all
next
  case (2 b bs)
  then show ?case by simp
next
  case (3 a as b bs)
  then show ?case by auto
qed

lemma consistent_numbers:
  assumes "\<forall>r \<in> set xs. colIndex < length (cells r) \<and>
      (\<exists>q. sortValue (trim (cells r ! colIndex)) = Num q \<and> q \<noteq> NaN)"
  shows "consistent (compareRows 1 colIndex) xs"
proof (rule consistent_strict_order [where lt = jsLess
      and k = "\<lambda>r. sortValue (trim (cells r ! colIndex))"])
  fix a b assume "a \<in> set xs" "b \<in> set xs"
  with assms show "verdict (compareRows 1 colIndex) a b =
     Some (if jsLess (sortValue (trim (cells b ! colIndex))) (sortValue (trim (cells a ! colIndex))) then 1
           else if jsLess (sortValue (trim (cells a ! colIndex))) (sortValue (trim (cells b ! colIndex)))
           then - 1 else 0)"
    by (intro verdict_compareRows) auto
  from \<open>a \<in> set xs\<close> \<open>b \<in> set xs\<close> assms obtain x y where
    "sortValue (trim (cells a ! colIndex)) = Num x" "x \<noteq> NaN"
    "sortValue (trim (cells b ! colIndex)) = Num y" "y \<noteq> NaN" by blast
  with numberLess_total [of x y]
  show "jsLess (sortValue (trim (cells a ! colIndex))) (sortValue (trim (cells b ! colIndex))) \<or>
        sortValue (trim (cells a ! colIndex)) = sortValue (trim (cells b ! colIndex)) \<or>
        jsLess (sortValue (trim (cells b ! colIndex))) (sortValue (trim (cells a ! colIndex)))"
    by auto
next
  fix a show "\<not> jsLess (sortValue (trim (cells a ! colIndex))) (sortValue (trim (cells a ! colIndex)))"
    by (rule jsLess_irrefl)
next
  fix a b c assume "a \<in> set xs" "b \<in> set xs" "c \<in> set xs"
    and "jsLess (sortValue (trim (cells a ! colIndex))) (sortValue (trim (cells b ! colIndex)))"
    and "jsLess (sortValue (trim (cells b ! colIndex))) (sortValue (trim (cells c ! colIndex)))"
  moreover from \<open>a \<in> set xs\<close> \<open>b \<in> set xs\<close> \<open>c \<in> set xs\<close> assms obtain x y z where
    "sortValue (trim (cells a ! colIndex)) = Num x" "sortValue (trim (cells b ! colIndex)) = Num y"
    "sortValue (trim (cells c ! colIndex)) = Num z" by blast
  ultimately show "jsLess (sortValue (trim (cells a ! colIndex))) (sortValue (trim (cells c ! colIndex)))"
    using numberLess_trans [of x y z] by simp
qed

lemma consistent_texts:
  assumes "\<forall>r \<in> set xs. colIndex < length (cells r) \<and>
      (\<exists>s. sortValue (trim (cells r ! colIndex)) = Str s)"
  shows "consistent (compareRows 1 colIndex) xs"
proof (rule consistent_strict_order [where lt = jsLess
      and k = "\<lambda>r. sortValue (trim (cells r ! colIndex))"])
  fix a b assume "a \<in> set xs" "b \<in> set xs"
  with assms show "verdict (compareRows 1 colIndex) a b =
     Some (if jsLess (sortValue (trim (cells b ! colIndex))) (sortValue (trim (cells a ! colIndex))) then 1
           else if jsLess (sortValue (trim (cells a ! colIndex))) (sortValue (trim (cells b ! colIndex)))
           then - 1 else 0)"
    by (intro verdict_compareRows) auto
  from \<open>a \<in> set xs\<close> \<open>b \<in> set xs\<close> assms obtain x y where
    "sortValue (trim (cells a ! colIndex)) = Str x"
    "sortValue (trim (cells b ! colIndex)) = Str y" by blast
  with stringLess_total [of x y]
  show "jsLess (sortValue (trim (cells a ! colIndex))) (sortValue (trim (cells b ! colIndex))) \<or>
        sortValue (trim (cells a ! colIndex)) = sortValue (trim (cells b ! colIndex)) \<or>
        jsLess (sortValue (trim (cells b ! colIndex))) (sortValue (trim (cells a ! colIndex)))"
    by auto
next
  fix a show "\<not> jsLess (sortValue (trim (cells a ! colIndex))) (sortValue (trim (cells a ! colIndex)))"
    by (rule jsLess_irrefl)
next
  fix a b c assume "a \<in> set xs" "b \<in> set xs" "c \<in> set xs"
    and "jsLess (sortValue (trim (cells a ! colIndex))) (sortValue (trim (cells b ! colIndex)))"
    and "jsLess (sortValue (trim (cells b ! colIndex))) (sortValue (trim (cells c ! colIndex)))"
  moreover from \<open>a \<in> set xs\<close> \<open>b \<in> set xs\<close> \<open>c \<in> set xs\<close> assms obtain x y z where
    "sortValue (trim (cells a ! colIndex)) = Str x" "sortValue (trim (cells b ! colIndex)) = Str y"
    "sortValue (trim (cells c ! colIndex)) = Str z" by blast
  ultimately show "jsLess (sortValue (trim (cells a ! colIndex))) (sortValue (trim (cells c ! colIndex)))"
    using stringLess_trans [of x y z] by simp
qed



subsection \<open>The example document, evaluated\<close>

lemma sortTable_eval:
  assumes "tbody t = Some rows" and "header < length (headers t)"
    and "arraySort engine
       (compareRows (if contains (headers t ! header) ''sorted-asc'' then - 1 else 1) colIndex) rows
       = Inr sortedRows"
  shows "sortTable engine colIndex header t =
     Inr \<lparr>headers = (map (\<lambda>th. remove th [''sorted-asc'', ''sorted-desc'']) (headers t))
            [header := add (remove (headers t ! header) [''sorted-asc'', ''sorted-desc''])
               (if contains (headers t ! header) ''sorted-asc'' then ''sorted-desc'' else ''sorted-asc'')],
          tbody = Some sortedRows\<rparr>"
proof -
  have "fold (\<lambda>row children. appendChild children row) sortedRows rows = sortedRows"
    using fold_appendChild [OF arraySort_mset [OF assms(3)]] .
  with assms show ?thesis by (simp add: sortTable_def Let_def)
qed

lemma example_body: "tbody exampleTable = Some [rowA, rowB, rowC]"
  by (simp add: exampleTable_def)

lemma shuffled_body: "tbody shuffledTable = Some [rowB, rowA, rowC]"
  by (simp add: shuffledTable_def)

lemma example_cells:
  "length (cells rowA) = 3" "length (cells rowB) = 3" "length (cells rowC) = 3"
  by (simp_all add: rowA_def rowB_def rowC_def textRow_def)

lemma example_keys:
  "sortValue (trim (cells rowA ! 0)) = Str (units ''wiki a'')"
  "sortValue (trim (cells rowB ! 0)) = Str (units ''wiki b'')"
  "sortValue (trim (cells rowC ! 0)) = Str (units ''wiki c'')"
  "sortValue (trim (cells rowA ! 1)) = Num (Finite 10)"
  "sortValue (trim (cells rowB ! 1)) = Num (Finite 9)"
  "sortValue (trim (cells rowC ! 1)) = Num (Finite 2)"
  "sortValue (trim (cells rowA ! 2)) = Num (Finite 5)"
  "sortValue (trim (cells rowB ! 2)) = Str (units ''n/a'')"
  "sortValue (trim (cells rowC ! 2)) = Num (Finite 7)"
  by code_simp+

lemma example_column0:
  "compareRows (- 1) 0 rowB rowC = Inr 1"
  "compareRows (- 1) 0 rowA rowC = Inr 1"
  "compareRows (- 1) 0 rowA rowB = Inr 1"
  by code_simp+

lemma example_column1:
  "compareRows 1 1 rowB rowC = Inr 1"
  "compareRows 1 1 rowA rowC = Inr 1"
  "compareRows 1 1 rowA rowB = Inr 1"
  by code_simp+

lemma example_column2:
  "compareRows 1 2 rowB rowC = Inr 0"
  "compareRows 1 2 rowA rowB = Inr 0"
  "compareRows 1 2 rowA rowC = Inr (- 1)"
  by code_simp+

lemma example_consistent0: "consistent (compareRows 1 0) [rowA, rowB, rowC]"
proof (rule consistent_texts)
  have "0 < length (cells rowA)" "0 < length (cells rowB)" "0 < length (cells rowC)"
    by (simp_all add: example_cells)
  then show "\<forall>r \<in> set [rowA, rowB, rowC]. 0 < length (cells r) \<and>
      (\<exists>s. sortValue (trim (cells r ! 0)) = Str s)"
    using example_keys(1-3) by (simp del: length_greater_0_conv)
qed

lemma example_consistent1: "consistent (compareRows 1 1) [rowA, rowB, rowC]"
proof (rule consistent_numbers)
  have "1 < length (cells rowA)" "1 < length (cells rowB)" "1 < length (cells rowC)"
    by (simp_all add: example_cells)
  then show "\<forall>r \<in> set [rowA, rowB, rowC]. 1 < length (cells r) \<and>
      (\<exists>q. sortValue (trim (cells r ! 1)) = Num q \<and> q \<noteq> NaN)"
    using example_keys(4-6) by (simp del: One_nat_def)
qed

lemma consistent_equal_trans:
  assumes "consistent cmp xs" and "a \<in> set xs" and "b \<in> set xs" and "c \<in> set xs"
    and "verdict cmp a b = Some 0" and "verdict cmp b c = Some 0"
  shows "verdict cmp a c = Some 0"
  using assms unfolding consistent_def by blast

lemma example_inconsistent2: "\<not> consistent (compareRows 1 2) [rowA, rowB, rowC]"
proof
  assume "consistent (compareRows 1 2) [rowA, rowB, rowC]"
  then have "verdict (compareRows 1 2) rowA rowC = Some 0"
    by (rule consistent_equal_trans [where b = rowB])
      (simp_all add: verdict_def example_column2)
  then show False by (simp add: verdict_def example_column2)
qed

lemma example_arraySort0:
  "arraySort engine (compareRows (- 1) 0) [rowA, rowB, rowC] = Inr [rowC, rowB, rowA]"
proof -
  have "consistent (compareRows (- 1) 0) [rowA, rowB, rowC]"
    using example_consistent0 by (simp only: consistent_neg)
  then have "arraySort engine (compareRows (- 1) 0) [rowA, rowB, rowC]
      = stableSort (compareRows (- 1) 0) [rowA, rowB, rowC]"
    by (rule arraySort_consistent)
  then show ?thesis by (simp add: example_column0)
qed

lemma example_arraySort1:
  "arraySort engine (compareRows 1 1) [rowA, rowB, rowC] = Inr [rowC, rowB, rowA]"
proof -
  have "arraySort engine (compareRows 1 1) [rowA, rowB, rowC]
      = stableSort (compareRows 1 1) [rowA, rowB, rowC]"
    using example_consistent1 by (rule arraySort_consistent)
  then show ?thesis by (simp del: One_nat_def add: example_column1)
qed

lemma example_arraySort2:
  "arraySort rotating (compareRows 1 2) [rowA, rowB, rowC] = Inr [rowC, rowA, rowB]"
proof -
  have "stableSort (compareRows 1 2) [rowA, rowB, rowC] = Inr [rowA, rowB, rowC]"
    by (simp add: example_column2)
  moreover have "reorder (rotating (compareRows 1 2) [rowA, rowB, rowC]) [rowA, rowB, rowC]
      = [rowC, rowA, rowB]"
    by (simp add: reorder_def rotating_def enumerate_eq_zip upt_rec)
  ultimately show ?thesis by (simp add: arraySort_def example_inconsistent2)
qed

lemma example_sorts:
  "sortTable engine 0 0 exampleTable =
     Inr \<lparr>headers = [[''sorted-desc''], [], []], tbody = Some [rowC, rowB, rowA]\<rparr>"
  "sortTable engine 1 1 exampleTable =
     Inr \<lparr>headers = [[], [''sorted-asc''], []], tbody = Some [rowC, rowB, rowA]\<rparr>"
  "sortTable rotating 2 2 exampleTable =
     Inr \<lparr>headers = [[], [], [''sorted-asc'']], tbody = Some [rowC, rowA, rowB]\<rparr>"
proof -
  have h: "headers exampleTable = [[''sorted-asc''], [], []]" by (simp add: exampleTable_def)
  show "sortTable engine 0 0 exampleTable =
     Inr \<lparr>headers = [[''sorted-desc''], [], []], tbody = Some [rowC, rowB, rowA]\<rparr>"
    using sortTable_eval [OF example_body, of 0 engine 0 "[rowC, rowB, rowA]"]
    by (simp add: h contains_def remove_def add_def example_arraySort0)
  show "sortTable engine 1 1 exampleTable =
     Inr \<lparr>headers = [[], [''sorted-asc''], []], tbody = Some [rowC, rowB, rowA]\<rparr>"
    using sortTable_eval [OF example_body, of 1 engine 1 "[rowC, rowB, rowA]"]
    by (simp add: h contains_def remove_def add_def example_arraySort1 [unfolded One_nat_def])
  show "sortTable rotating 2 2 exampleTable =
     Inr \<lparr>headers = [[], [], [''sorted-asc'']], tbody = Some [rowC, rowA, rowB]\<rparr>"
    using sortTable_eval [OF example_body, of 2 rotating 2 "[rowC, rowA, rowB]"]
    by (simp add: h contains_def remove_def add_def example_arraySort2)
qed

lemma example_filters:
  "filterChange True exampleTable =
     Inr \<lparr>headers = [[''sorted-asc''], [], []],
          tbody = Some [rowA, rowB\<lparr>classList := [''hidden'']\<rparr>, rowC]\<rparr>"
  "filterChanges ([True, False, True] @ [False]) exampleTable =
     Inr \<lparr>headers = [[''sorted-asc''], [], []],
          tbody = Some [rowA, rowB, rowC\<lparr>classList := []\<rparr>]\<rparr>"
  by code_simp+

section \<open>The claims\<close>

text \<open>
  Claim C1, as amended. The comparator takes, for each of the two rows, the trimmed text of
  the cell at the clicked column, and its result goes by the values derived from these
  texts: \<open>direction\<close> when the value of \<open>a\<close> is greater than the value of \<open>b\<close>,
  \<open>- direction\<close> when it is less, 0 otherwise. The derived value is the lower-cased text
  when \<^verbatim>\<open>Number\<close> makes NaN of the text, and the value of the literal when the whole
  text is a decimal literal (an optional sign, then digits with an optional fraction and
  exponent, or \<^verbatim>\<open>Infinity\<close>); that value need not be finite.
\<close>

theorem compareRows_keys:
  assumes "colIndex < length (cells a)" and "colIndex < length (cells b)"
  shows "compareRows direction colIndex a b =
           Inr (let aValue = sortValue (trim (cells a ! colIndex));
                    bValue = sortValue (trim (cells b ! colIndex))
                in if jsGreater aValue bValue then direction
                   else if jsLess aValue bValue then - direction
                   else 0) \<and>
         (isNaN (trim content) \<longrightarrow> sortValue (trim content) = Str (toLowerCase (trim content))) \<and>
         (strDecimalLiteral (trim content) = Some (n, []) \<longrightarrow> sortValue (trim content) = Num n)"
proof (intro conjI impI)
  show "compareRows direction colIndex a b =
           Inr (let aValue = sortValue (trim (cells a ! colIndex));
                    bValue = sortValue (trim (cells b ! colIndex))
                in if jsGreater aValue bValue then direction
                   else if jsLess aValue bValue then - direction
                   else 0)"
    using assms by (simp add: compareRows_def Let_def)
next
  assume "isNaN (trim content)"
  then show "sortValue (trim content) = Str (toLowerCase (trim content))"
    by (simp add: sortValue_def)
next
  assume "strDecimalLiteral (trim content) = Some (n, [])"
  then show "sortValue (trim content) = Num n" by (rule sortValue_decimal)
qed

text \<open>
  Witness for C1: in the example, the second column of the first two rows holds 10 and 9.
  \<^verbatim>\<open>n/a\<close> is no number, and neither is the text of the code units 1046 and 73, a
  Cyrillic and a Latin capital letter, whose lower case is the code units 1078 and 105.
\<close>

theorem compareRows_keys_witness:
  "1 < length (cells rowA) \<and> 1 < length (cells rowB) \<and>
   isNaN (trim (units ''n/a'')) \<and>
   isNaN (trim [1046, 73]) \<and>
   strDecimalLiteral (trim (units '' 9 '')) = Some (Finite 9, []) \<and>
   compareRows 1 1 rowA rowB = Inr 1 \<and>
   sortValue (trim (units ''n/a'')) = Str (units ''n/a'') \<and>
   sortValue (trim [1046, 73]) = Str [1078, 105] \<and>
   sortValue (trim (units '' 9 '')) = Num (Finite 9)"
proof -
  have h1: "1 < length (cells rowA)" and h2: "1 < length (cells rowB)"
    by (simp_all add: example_cells)
  have h3: "isNaN (trim (units ''n/a''))" "isNaN (trim [1046, 73])" by code_simp+
  have h4: "strDecimalLiteral (trim (units '' 9 '')) = Some (Finite 9, [])" by code_simp
  have v: "(let aValue = sortValue (trim (cells rowA ! 1));
                bValue = sortValue (trim (cells rowB ! 1))
            in if jsGreater aValue bValue then 1
               else if jsLess aValue bValue then - 1
               else 0) = (1::int)"
    by code_simp
  have l: "toLowerCase (trim (units ''n/a'')) = units ''n/a''"
    "toLowerCase (trim [1046, 73]) = [1078, 105]" by code_simp+
  from compareRows_keys [where direction = 1 and content = "units ''n/a''", OF h1 h2]
    compareRows_keys [where content = "[1046, 73]", OF h1 h2]
    compareRows_keys [where content = "units '' 9 ''" and n = "Finite 9", OF h1 h2]
  have "compareRows 1 1 rowA rowB = Inr 1"
    and "sortValue (trim (units ''n/a'')) = Str (toLowerCase (trim (units ''n/a'')))"
    and "sortValue (trim [1046, 73]) = Str (toLowerCase (trim [1046, 73]))"
    and "sortValue (trim (units '' 9 '')) = Num (Finite 9)"
    using h3 h4 v by simp_all
  with h1 h2 h3 h4 l show ?thesis by simp
qed

text \<open>
  Counterexample to claim C1 as it is stated. The values derived from a cell
  \<^verbatim>\<open>Infinity\<close> and from an empty cell are the numbers Infinity and NaN: neither a
  finite number nor the lower-cased text. A cell \<^verbatim>\<open>Infinity\<close> is no finite number
  under either reading of ``parses'', so the claim compares it as the text
  \<^verbatim>\<open>infinity\<close>, which is neither greater nor less than 5; the comparator compares it as
  the number and returns \<open>direction\<close>. An empty cell compares below 5 under both readings
  of the claim (as the number 0, or as the empty text, which converts to 0), while the
  comparator derives NaN from it through \<^verbatim>\<open>parseFloat\<close> and returns 0.
\<close>

theorem claimed_keys_counterexample:
  "sortValue (trim (units ''Infinity'')) = Num Infinity \<and>
   sortValue (trim (units '''')) = Num NaN \<and>
   compareRows 1 0 (textRow 0 [''Infinity''] []) (textRow 1 [''5''] []) = Inr 1 \<and>
   claimedCompareRows toNumber 1 0 (textRow 0 [''Infinity''] []) (textRow 1 [''5''] []) = Inr 0 \<and>
   claimedCompareRows parseFloat 1 0 (textRow 0 [''Infinity''] []) (textRow 1 [''5''] []) = Inr 0 \<and>
   compareRows 1 0 (textRow 0 [''''] []) (textRow 1 [''5''] []) = Inr 0 \<and>
   claimedCompareRows toNumber 1 0 (textRow 0 [''''] []) (textRow 1 [''5''] []) = Inr (- 1) \<and>
   claimedCompareRows parseFloat 1 0 (textRow 0 [''''] []) (textRow 1 [''5''] []) = Inr (- 1)"
  by code_simp

text \<open>
  Claim C2. When \<^verbatim>\<open>sortTable\<close> returns, the header it was called with carries
  \<^verbatim>\<open>sorted-desc\<close> exactly when it carried \<^verbatim>\<open>sorted-asc\<close> before, and
  \<^verbatim>\<open>sorted-asc\<close> exactly when it did not; so it is never left without a marker. The
  direction of the sort goes the same way: where the comparator is consistent on the rows
  of the body, which is where the language determines the order of the result, the body is
  left in descending order of the clicked column when the header carried
  \<^verbatim>\<open>sorted-asc\<close>, and in ascending order in every other state of the header. This
  holds for every engine.
\<close>

theorem direction_toggle:
  assumes "sortTable engine colIndex header t = Inr t'"
  shows "header < length (headers t') \<and>
         (contains (headers t' ! header) ''sorted-desc'' \<longleftrightarrow> contains (headers t ! header) ''sorted-asc'') \<and>
         (contains (headers t' ! header) ''sorted-asc'' \<longleftrightarrow> \<not> contains (headers t ! header) ''sorted-asc'') \<and>
         (\<exists>rows sortedRows.
            tbody t = Some rows \<and> tbody t' = Some sortedRows \<and>
            (consistent (compareRows 1 colIndex) rows \<longrightarrow>
               (if contains (headers t ! header) ''sorted-asc''
                then descending colIndex sortedRows
                else ascending colIndex sortedRows)))"
proof -
  from assms obtain rows sortedRows where
    *: "tbody t = Some rows" "header < length (headers t)"
    "arraySort engine
       (compareRows (if contains (headers t ! header) ''sorted-asc'' then - 1 else 1) colIndex) rows
       = Inr sortedRows"
    "tbody t' = Some sortedRows"
    "headers t' = (map (\<lambda>th. remove th [''sorted-asc'', ''sorted-desc'']) (headers t))
       [header := add (remove (headers t ! header) [''sorted-asc'', ''sorted-desc''])
          (if contains (headers t ! header) ''sorted-asc'' then ''sorted-desc'' else ''sorted-asc'')]"
    by (rule sortTable_Inr)
  from *(2,5) have len: "header < length (headers t')" by simp
  from *(2,5) have
    "headers t' ! header = add (remove (headers t ! header) [''sorted-asc'', ''sorted-desc''])
          (if contains (headers t ! header) ''sorted-asc'' then ''sorted-desc'' else ''sorted-asc'')"
    by simp
  then have marks:
    "contains (headers t' ! header) ''sorted-desc'' \<longleftrightarrow> contains (headers t ! header) ''sorted-asc''"
    "contains (headers t' ! header) ''sorted-asc'' \<longleftrightarrow> \<not> contains (headers t ! header) ''sorted-asc''"
    by (auto simp: contains_add contains_remove)
  have "if contains (headers t ! header) ''sorted-asc''
        then descending colIndex sortedRows else ascending colIndex sortedRows"
    if c: "consistent (compareRows 1 colIndex) rows"
  proof (cases "contains (headers t ! header) ''sorted-asc''")
    case True
    with *(3) have "arraySort engine (compareRows (- 1) colIndex) rows = Inr sortedRows" by simp
    from sorted_descending [OF c this] True show ?thesis by simp
  next
    case False
    with *(3) have "arraySort engine (compareRows 1 colIndex) rows = Inr sortedRows" by simp
    from sorted_ascending [OF c this] False show ?thesis by simp
  qed
  with len marks *(1,4) show ?thesis by blast
qed

text \<open>
  Witness for C2: a click on the first header of the example, which is marked ascending,
  sorts the first column downwards; a click on the second header, which is not marked,
  sorts the second column upwards. The comparator is consistent on both columns.
\<close>

theorem direction_toggle_witness:
  "contains (headers exampleTable ! 0) ''sorted-asc'' \<and>
   consistent (compareRows 1 0) [rowA, rowB, rowC] \<and>
   sortTable rotating 0 0 exampleTable =
     Inr \<lparr>headers = [[''sorted-desc''], [], []], tbody = Some [rowC, rowB, rowA]\<rparr> \<and>
   contains ([[''sorted-desc''], [], []] ! 0) ''sorted-desc'' \<and>
   \<not> contains ([[''sorted-desc''], [], []] ! 0) ''sorted-asc'' \<and>
   descending 0 [rowC, rowB, rowA] \<and>
   \<not> contains (headers exampleTable ! 1) ''sorted-asc'' \<and>
   consistent (compareRows 1 1) [rowA, rowB, rowC] \<and>
   sortTable rotating 1 1 exampleTable =
     Inr \<lparr>headers = [[], [''sorted-asc''], []], tbody = Some [rowC, rowB, rowA]\<rparr> \<and>
   contains ([[], [''sorted-asc''], []] ! 1) ''sorted-asc'' \<and>
   \<not> contains ([[], [''sorted-asc''], []] ! 1) ''sorted-desc'' \<and>
   ascending 1 [rowC, rowB, rowA]"
proof -
  have c: "contains (headers exampleTable ! 0) ''sorted-asc''"
    "\<not> contains (headers exampleTable ! 1) ''sorted-asc''"
    by (simp_all add: exampleTable_def contains_def)
  from direction_toggle [OF example_sorts(1) [of rotating]] c(1) example_body example_consistent0
  have 0: "contains ([[''sorted-desc''], [], []] ! 0) ''sorted-desc''"
    "\<not> contains ([[''sorted-desc''], [], []] ! 0) ''sorted-asc''"
    "descending 0 [rowC, rowB, rowA]"
    by simp_all
  from direction_toggle [OF example_sorts(2) [of rotating]] c(2) example_body example_consistent1
  have 1: "contains ([[], [''sorted-asc''], []] ! 1) ''sorted-asc''"
    "\<not> contains ([[], [''sorted-asc''], []] ! 1) ''sorted-desc''"
    "ascending 1 [rowC, rowB, rowA]"
    by simp_all
  from c 0 1 example_consistent0 example_consistent1 example_sorts(1,2) [of rotating]
  show ?thesis by blast
qed

text \<open>
  Claim C3. When \<^verbatim>\<open>sortTable\<close> returns, the table has the headers it had, and a
  header carries \<^verbatim>\<open>sorted-asc\<close> or \<^verbatim>\<open>sorted-desc\<close> exactly when it is the one the
  function was called with.
\<close>

theorem single_marker:
  assumes "sortTable engine colIndex header t = Inr t'"
  shows "length (headers t') = length (headers t) \<and> header < length (headers t') \<and>
         (\<forall>j < length (headers t'). marked (headers t' ! j) \<longleftrightarrow> j = header)"
proof -
  from assms obtain rows sortedRows where
    *: "header < length (headers t)"
    "headers t' = (map (\<lambda>th. remove th [''sorted-asc'', ''sorted-desc'']) (headers t))
       [header := add (remove (headers t ! header) [''sorted-asc'', ''sorted-desc''])
          (if contains (headers t ! header) ''sorted-asc'' then ''sorted-desc'' else ''sorted-asc'')]"
    by (rule sortTable_Inr)
  have len: "length (headers t') = length (headers t)" using *(2) by simp
  have "marked (headers t' ! j) \<longleftrightarrow> j = header" if j: "j < length (headers t')" for j
  proof (cases "j = header")
    case True
    with * show ?thesis by (simp add: marked_def contains_add)
  next
    case False
    with * j len show ?thesis by (simp add: marked_def contains_remove)
  qed
  with len * show ?thesis by simp
qed

text \<open>
  Witness for C3: the first header of the example is marked; after a click on the second
  one only the second is.
\<close>

theorem single_marker_witness:
  "marked (headers exampleTable ! 0) \<and>
   sortTable rotating 1 1 exampleTable =
     Inr \<lparr>headers = [[], [''sorted-asc''], []], tbody = Some [rowC, rowB, rowA]\<rparr> \<and>
   \<not> marked ([[], [''sorted-asc''], []] ! 0) \<and>
   marked ([[], [''sorted-asc''], []] ! 1) \<and>
   \<not> marked ([[], [''sorted-asc''], []] ! 2)"
proof -
  have m: "marked (headers exampleTable ! 0)" by code_simp
  from single_marker [OF example_sorts(2) [of rotating]]
  have a: "\<And>j. j < 3 \<Longrightarrow> marked ([[], [''sorted-asc''], []] ! j) = (j = 1)" by simp
  from a [of 0] a [of 1] a [of 2] m example_sorts(2) [of rotating] show ?thesis by simp
qed

text \<open>
  Claim C4. On a table with a body, the \<^verbatim>\<open>change\<close> listener with the checkbox
  checked returns, keeps every row in its place with its error marker, and leaves each row
  hidden exactly when it is no error row.
\<close>

theorem filter_on_hides_non_errors:
  assumes "tbody t = Some rows"
  shows "\<exists>t' rows'. filterChange True t = Inr t' \<and> tbody t' = Some rows' \<and>
           length rows' = length rows \<and>
           (\<forall>i < length rows.
              node (rows' ! i) = node (rows ! i) \<and>
              carriesError (rows' ! i) = carriesError (rows ! i) \<and>
              (hidden (rows' ! i) \<longleftrightarrow> \<not> carriesError (rows' ! i)))"
  using filterChange_Some [OF assms, of True] by simp

text \<open>
  Witness for C4: in the example the error row stays visible, the second row becomes
  hidden and the hidden third row stays hidden.
\<close>

theorem filter_on_hides_non_errors_witness:
  "tbody exampleTable = Some [rowA, rowB, rowC] \<and>
   filterChange True exampleTable =
     Inr \<lparr>headers = [[''sorted-asc''], [], []],
          tbody = Some [rowA, rowB\<lparr>classList := [''hidden'']\<rparr>, rowC]\<rparr> \<and>
   carriesError rowA \<and> \<not> hidden rowA \<and>
   \<not> carriesError (rowB\<lparr>classList := [''hidden'']\<rparr>) \<and> hidden (rowB\<lparr>classList := [''hidden'']\<rparr>) \<and>
   \<not> carriesError rowC \<and> hidden rowC"
proof -
  have e: "carriesError rowA" "\<not> carriesError (rowB\<lparr>classList := [''hidden'']\<rparr>)" "\<not> carriesError rowC"
    by code_simp+
  from filter_on_hides_non_errors [OF example_body]
  have a: "\<And>i. i < 3 \<Longrightarrow>
      hidden ([rowA, rowB\<lparr>classList := [''hidden'']\<rparr>, rowC] ! i) =
      (\<not> carriesError ([rowA, rowB\<lparr>classList := [''hidden'']\<rparr>, rowC] ! i))"
    by (simp add: example_filters(1))
  from a [of 0] a [of 1] a [of 2] e example_body example_filters(1) show ?thesis by simp
qed

text \<open>
  Claim C5. On a table with a body, after any sequence of \<^verbatim>\<open>change\<close> events
  followed by one with the checkbox unchecked, the rows are the same elements in the same
  order and none of them is hidden.
\<close>

theorem filter_off_shows_all:
  assumes "tbody t = Some rows"
  shows "\<exists>t' rows'. filterChanges (prior @ [False]) t = Inr t' \<and> tbody t' = Some rows' \<and>
           map node rows' = map node rows \<and> (\<forall>r \<in> set rows'. \<not> hidden r)"
proof -
  from filterChanges_total [OF assms, of prior] obtain t1 rows1 where
    1: "filterChanges prior t = Inr t1" "tbody t1 = Some rows1" "map node rows1 = map node rows"
    by blast
  let ?t = "t1\<lparr>tbody := Some (map (filterRow False) rows1)\<rparr>"
  have "filterChanges (prior @ [False]) t = Inr ?t"
    using 1 filterChange_Some [OF 1(2), of False] by (simp add: filterChanges_append)
  moreover have "tbody ?t = Some (map (filterRow False) rows1)" by simp
  moreover have "map node (map (filterRow False) rows1) = map node rows" using 1(3) by (simp add: comp_def)
  moreover have "\<forall>r \<in> set (map (filterRow False) rows1). \<not> hidden r" by simp
  ultimately show ?thesis by blast
qed

text \<open>
  Witness for C5: four events on the example, the last one unchecked.
\<close>

theorem filter_off_shows_all_witness:
  "tbody exampleTable = Some [rowA, rowB, rowC] \<and>
   filterChanges ([True, False, True] @ [False]) exampleTable =
     Inr \<lparr>headers = [[''sorted-asc''], [], []],
          tbody = Some [rowA, rowB, rowC\<lparr>classList := []\<rparr>]\<rparr> \<and>
   \<not> hidden rowA \<and> \<not> hidden rowB \<and> \<not> hidden (rowC\<lparr>classList := []\<rparr>)"
proof -
  from filter_off_shows_all [OF example_body, of "[True, False, True]"]
  have "\<forall>r \<in> set [rowA, rowB, rowC\<lparr>classList := []\<rparr>]. \<not> hidden r"
    by (simp only: example_filters(2)) auto
  with example_body example_filters(2) show ?thesis by simp
qed

text \<open>
  Claim C6. A body of three rows whose cells in the clicked column read 10, 9 and 2, in
  whatever order the three rows stand in the document, under a header that is not marked
  ascending, is put in the order 2, 9, 10 of the numbers, and not in the order 10, 2, 9 of
  the texts. This holds for every engine.
\<close>

theorem numeric_not_lexical_order:
  assumes "tbody t = Some rows" and "mset rows = mset [a, b, c]"
    and "header < length (headers t)"
    and "\<not> contains (headers t ! header) ''sorted-asc''"
    and "colIndex < length (cells a)" and "colIndex < length (cells b)" and "colIndex < length (cells c)"
    and "trim (cells a ! colIndex) = units ''10''"
    and "trim (cells b ! colIndex) = units ''9''"
    and "trim (cells c ! colIndex) = units ''2''"
  shows "\<exists>t'. sortTable engine colIndex header t = Inr t' \<and> tbody t' = Some [c, b, a] \<and>
              tbody t' \<noteq> Some [a, c, b]"
proof -
  let ?cmp = "compareRows 1 colIndex"
  have cmp: "?cmp a a = Inr 0" "?cmp a b = Inr 1" "?cmp a c = Inr 1"
    "?cmp b a = Inr (- 1)" "?cmp b b = Inr 0" "?cmp b c = Inr 1"
    "?cmp c a = Inr (- 1)" "?cmp c b = Inr (- 1)" "?cmp c c = Inr 0"
    using assms(5-10) by (simp_all add: compareRows_def sortValue_examples jsGreater_def)
  have "set rows = set [a, b, c]" using assms(2) by (rule mset_eq_setD)
  with assms(5-10) have "consistent ?cmp rows"
    by (intro consistent_numbers) (auto simp: sortValue_examples)
  then have "arraySort engine ?cmp rows = stableSort ?cmp rows" by (rule arraySort_consistent)
  also have "stableSort ?cmp rows = Inr [c, b, a]"
    using mset_three [OF assms(2)] by (auto simp: cmp)
  finally have sorted: "arraySort engine ?cmp rows = Inr [c, b, a]" .
  have "fold (\<lambda>row children. appendChild children row) [c, b, a] rows = [c, b, a]"
    by (rule fold_appendChild) (simp add: assms(2))
  with sorted assms(1,3,4) have "\<exists>t'. sortTable engine colIndex header t = Inr t' \<and> tbody t' = Some [c, b, a]"
    by (simp add: sortTable_def)
  moreover have "b \<noteq> c"
  proof
    assume "b = c"
    with assms(9,10) have "units ''9'' = units ''2''" by simp
    then show False by (simp add: units_def)
  qed
  ultimately show ?thesis by auto
qed

text \<open>
  Witness for C6: the second column of the rows of the example, standing in the order 9,
  10, 2.
\<close>

theorem numeric_not_lexical_order_witness:
  "tbody shuffledTable = Some [rowB, rowA, rowC] \<and>
   mset [rowB, rowA, rowC] = mset [rowA, rowB, rowC] \<and>
   1 < length (headers shuffledTable) \<and>
   \<not> contains (headers shuffledTable ! 1) ''sorted-asc'' \<and>
   1 < length (cells rowA) \<and> 1 < length (cells rowB) \<and> 1 < length (cells rowC) \<and>
   trim (cells rowA ! 1) = units ''10'' \<and>
   trim (cells rowB ! 1) = units ''9'' \<and>
   trim (cells rowC ! 1) = units ''2'' \<and>
   (\<exists>t'. sortTable rotating 1 1 shuffledTable = Inr t' \<and> tbody t' = Some [rowC, rowB, rowA])"
proof -
  have m: "mset [rowB, rowA, rowC] = mset [rowA, rowB, rowC]" by simp
  have h: "1 < length (headers shuffledTable)" "\<not> contains (headers shuffledTable ! 1) ''sorted-asc''"
    by (simp_all add: shuffledTable_def contains_def)
  have l: "1 < length (cells rowA)" "1 < length (cells rowB)" "1 < length (cells rowC)"
    by (simp_all add: example_cells)
  have c: "trim (cells rowA ! 1) = units ''10''" "trim (cells rowB ! 1) = units ''9''"
    "trim (cells rowC ! 1) = units ''2''"
    by code_simp+
  from numeric_not_lexical_order [OF shuffled_body m h l c, of rotating] shuffled_body m h l c
  show ?thesis by blast
qed

text \<open>
  Claim C7. When \<^verbatim>\<open>sortTable\<close> returns, the hidden rows of the body are the hidden
  rows it had, each with its class list as it was. When the \<^verbatim>\<open>change\<close> listener
  returns, the rows of the body are in the order they were in.
\<close>

theorem sort_filter_independent:
  "(sortTable engine colIndex header t = Inr t' \<longrightarrow>
      (\<exists>rows rows'. tbody t = Some rows \<and> tbody t' = Some rows' \<and>
         {r \<in> set rows'. hidden r} = {r \<in> set rows. hidden r} \<and>
         mset (filter hidden rows') = mset (filter hidden rows))) \<and>
   (filterChange checked t = Inr t'' \<longrightarrow>
      (\<exists>rows rows''. tbody t = Some rows \<and> tbody t'' = Some rows'' \<and>
         map node rows'' = map node rows \<and> map cells rows'' = map cells rows))"
proof (intro conjI impI)
  assume "sortTable engine colIndex header t = Inr t'"
  then obtain rows sortedRows where
    *: "tbody t = Some rows" "tbody t' = Some sortedRows"
    "arraySort engine
       (compareRows (if contains (headers t ! header) ''sorted-asc'' then - 1 else 1) colIndex) rows
       = Inr sortedRows"
    by (rule sortTable_Inr)
  have m: "mset sortedRows = mset rows" using *(3) by (rule arraySort_mset)
  then have "set sortedRows = set rows" by (rule mset_eq_setD)
  moreover have "mset (filter hidden sortedRows) = mset (filter hidden rows)"
    using m by (simp only: mset_filter)
  ultimately show "\<exists>rows rows'. tbody t = Some rows \<and> tbody t' = Some rows' \<and>
         {r \<in> set rows'. hidden r} = {r \<in> set rows. hidden r} \<and>
         mset (filter hidden rows') = mset (filter hidden rows)"
    using * by simp
next
  assume "filterChange checked t = Inr t''"
  from filterChange_Inr [OF this]
  show "\<exists>rows rows''. tbody t = Some rows \<and> tbody t'' = Some rows'' \<and>
         map node rows'' = map node rows \<and> map cells rows'' = map cells rows"
    by (auto simp: comp_def)
qed

text \<open>
  Witness for C7: sorting the example by its third column, on which the comparator is not
  consistent, with an engine that then moves the last row to the front; and checking the
  filter on the example.
\<close>

theorem sort_filter_independent_witness:
  "sortTable rotating 2 2 exampleTable =
     Inr \<lparr>headers = [[], [], [''sorted-asc'']], tbody = Some [rowC, rowA, rowB]\<rparr> \<and>
   mset (filter hidden [rowC, rowA, rowB]) = mset (filter hidden [rowA, rowB, rowC]) \<and>
   filterChange True exampleTable =
     Inr \<lparr>headers = [[''sorted-asc''], [], []],
          tbody = Some [rowA, rowB\<lparr>classList := [''hidden'']\<rparr>, rowC]\<rparr> \<and>
   map node [rowA, rowB\<lparr>classList := [''hidden'']\<rparr>, rowC] = map node [rowA, rowB, rowC] \<and>
   map cells [rowA, rowB\<lparr>classList := [''hidden'']\<rparr>, rowC] = map cells [rowA, rowB, rowC]"
  using sort_filter_independent [of rotating 2 2 exampleTable
      "\<lparr>headers = [[], [], [''sorted-asc'']], tbody = Some [rowC, rowA, rowB]\<rparr>" True
      "\<lparr>headers = [[''sorted-asc''], [], []],
        tbody = Some [rowA, rowB\<lparr>classList := [''hidden'']\<rparr>, rowC]\<rparr>"]
    example_sorts(3) example_filters(1) example_body
  by simp

text \<open>
  Claim C8. When \<^verbatim>\<open>sortTable\<close> returns, the rows of the body are a permutation of
  the rows it had: the same elements with the same cells and class lists, none added and
  none lost. When the \<^verbatim>\<open>change\<close> listener returns, the body has as many rows as
  before, and each position holds the same element with the same cells.
\<close>

theorem rows_preserved:
  "(sortTable engine colIndex header t = Inr t' \<longrightarrow>
      (\<exists>rows rows'. tbody t = Some rows \<and> tbody t' = Some rows' \<and> mset rows' = mset rows)) \<and>
   (filterChange checked t = Inr t'' \<longrightarrow>
      (\<exists>rows rows''. tbody t = Some rows \<and> tbody t'' = Some rows'' \<and>
         length rows'' = length rows \<and>
         (\<forall>i < length rows. node (rows'' ! i) = node (rows ! i) \<and> cells (rows'' ! i) = cells (rows ! i))))"
proof (intro conjI impI)
  assume "sortTable engine colIndex header t = Inr t'"
  then obtain rows sortedRows where
    *: "tbody t = Some rows" "tbody t' = Some sortedRows"
    "arraySort engine
       (compareRows (if contains (headers t ! header) ''sorted-asc'' then - 1 else 1) colIndex) rows
       = Inr sortedRows"
    by (rule sortTable_Inr)
  have "mset sortedRows = mset rows" using *(3) by (rule arraySort_mset)
  with * show "\<exists>rows rows'. tbody t = Some rows \<and> tbody t' = Some rows' \<and> mset rows' = mset rows"
    by simp
next
  assume "filterChange checked t = Inr t''"
  from filterChange_Inr [OF this]
  show "\<exists>rows rows''. tbody t = Some rows \<and> tbody t'' = Some rows'' \<and>
         length rows'' = length rows \<and>
         (\<forall>i < length rows. node (rows'' ! i) = node (rows ! i) \<and> cells (rows'' ! i) = cells (rows ! i))"
    by auto
qed

text \<open>
  Witness for C8: the same two calls on the example.
\<close>

theorem rows_preserved_witness:
  "sortTable rotating 2 2 exampleTable =
     Inr \<lparr>headers = [[], [], [''sorted-asc'']], tbody = Some [rowC, rowA, rowB]\<rparr> \<and>
   mset [rowC, rowA, rowB] = mset [rowA, rowB, rowC] \<and>
   filterChange True exampleTable =
     Inr \<lparr>headers = [[''sorted-asc''], [], []],
          tbody = Some [rowA, rowB\<lparr>classList := [''hidden'']\<rparr>, rowC]\<rparr> \<and>
   node (rowB\<lparr>classList := [''hidden'']\<rparr>) = node rowB \<and>
   cells (rowB\<lparr>classList := [''hidden'']\<rparr>) = cells rowB"
  using rows_preserved [of rotating 2 2 exampleTable
      "\<lparr>headers = [[], [], [''sorted-asc'']], tbody = Some [rowC, rowA, rowB]\<rparr>" True
      "\<lparr>headers = [[''sorted-asc''], [], []],
        tbody = Some [rowA, rowB\<lparr>classList := [''hidden'']\<rparr>, rowC]\<rparr>"]
    example_sorts(3) example_filters(1) example_body
  by simp

text \<open>
  Claim C9. On a table with a body in which every row has as many cells as the table has
  headers, a click on any of the headers returns without an exception.
\<close>

theorem click_never_faults:
  assumes "tbody t = Some rows"
    and "index < length (headers t)"
    and "\<forall>r \<in> set rows. length (cells r) = length (headers t)"
  shows "\<exists>t'. headerClick engine index t = Inr t'"
proof -
  let ?d = "if contains (headers t ! index) ''sorted-asc'' then - 1 else (1::int)"
  have "\<forall>a \<in> set rows. \<forall>b \<in> set rows. \<exists>c. compareRows ?d index a b = Inr c"
    using assms(2,3) by (auto intro!: compareRows_total)
  then obtain sortedRows where "arraySort engine (compareRows ?d index) rows = Inr sortedRows"
    using arraySort_total [of rows "compareRows ?d index" engine] by auto
  with assms(1,2) show ?thesis
    by (auto simp: headerClick_def sortTable_def Let_def)
qed

text \<open>
  Witness for C9: the example has three headers and three cells in each row; the click is
  on the third header.
\<close>

theorem click_never_faults_witness:
  "tbody exampleTable = Some [rowA, rowB, rowC] \<and> 2 < length (headers exampleTable) \<and>
   length (cells rowA) = length (headers exampleTable) \<and>
   length (cells rowB) = length (headers exampleTable) \<and>
   length (cells rowC) = length (headers exampleTable) \<and>
   (\<exists>t'. headerClick rotating 2 exampleTable = Inr t')"
proof -
  have h: "2 < length (headers exampleTable)" by (simp add: exampleTable_def)
  have l: "length (cells rowA) = length (headers exampleTable)"
    "length (cells rowB) = length (headers exampleTable)"
    "length (cells rowC) = length (headers exampleTable)"
    by (simp_all add: exampleTable_def example_cells)
  then have "\<forall>r \<in> set [rowA, rowB, rowC]. length (cells r) = length (headers exampleTable)"
    by simp
  from click_never_faults [OF example_body h this, of rotating] example_body h l show ?thesis by simp
qed



end
